theory Spec2Isabelle
  imports
    Complex_Main
    "HOL-Library.Finite_Map"
    "HOL-Library.Char_ord"
    "HOL-Library.List_Lexorder"
begin

section \<open>Python values, exceptions and fingerprints\<close>

text \<open>
  A fingerprint is a Python dict from strings to JSON-like values (\<^verbatim>\<open>rasa/model.py\<close>,
  type alias \<^verbatim>\<open>Fingerprint\<close>).  The values that occur are \<^verbatim>\<open>None\<close>, strings, integers,
  lists and dicts keyed by language.  A dict is a finite map, so that HOL equality is
  Python's \<^verbatim>\<open>==\<close> (which ignores insertion order).  Floats only occur under the key
  \<^verbatim>\<open>trained_at\<close>, which no section reads, and are left out.
\<close>

datatype pyval =
    PNone
  | PStr string
  | PInt int
  | PList "pyval list"
  | PDict "(string, pyval) fmap"

type_synonym Fingerprint = "(string, pyval) fmap"

text \<open>
  The exceptions that can leave the modelled functions: Python's built-in ones, the
  repository's \<^verbatim>\<open>ModelNotFound\<close>, \<^verbatim>\<open>tarfile.TarError\<close> and \<^verbatim>\<open>re.error\<close>.
\<close>

datatype pyerr =
    AttributeError
  | TypeError
  | IndexError
  | KeyError
  | OSError
  | ValueError
  | ModelNotFound
  | TarError
  | ReError

text \<open>\<^verbatim>\<open>d.get(k)\<close> on a dict: \<^verbatim>\<open>None\<close> for a missing key.\<close>

definition dict_get :: "(string, pyval) fmap \<Rightarrow> string \<Rightarrow> pyval" where
  "dict_get d k = (case fmlookup d k of None \<Rightarrow> PNone | Some v \<Rightarrow> v)"

text \<open>
  \<^verbatim>\<open>list(d.keys())\<close>.  Python lists the keys in insertion order, which a finite map does not
  record; the model lists them in increasing order.  No statement proved below depends on
  the order.
\<close>

definition dict_keys :: "(string, pyval) fmap \<Rightarrow> string list" where
  "dict_keys d = sorted_list_of_fset (fmdom d)"

text \<open>\<^verbatim>\<open>isinstance(v, dict)\<close>\<close>

fun isinstance_dict :: "pyval \<Rightarrow> bool" where
  "isinstance_dict (PDict d) = True"
| "isinstance_dict v = False"

text \<open>\<^verbatim>\<open>v.keys()\<close> and \<^verbatim>\<open>v.get(k)\<close> on an arbitrary value: only a dict has these attributes.\<close>

fun py_keys :: "pyval \<Rightarrow> pyerr + string list" where
  "py_keys (PDict d) = Inr (dict_keys d)"
| "py_keys v = Inl AttributeError"

fun py_get :: "pyval \<Rightarrow> string \<Rightarrow> pyerr + pyval" where
  "py_get (PDict d) k = Inr (dict_get d k)"
| "py_get v k = Inl AttributeError"

text \<open>\<^verbatim>\<open>list(s)\<close> for a Python set \<open>s\<close>: the order is not fixed by the source.\<close>

definition list_of_set :: "string set \<Rightarrow> string list" where
  "list_of_set s = sorted_list_of_set s"

definition FINGERPRINT_CONFIG_KEY :: string where
  "FINGERPRINT_CONFIG_KEY = ''config''"
definition FINGERPRINT_CONFIG_CORE_KEY :: string where
  "FINGERPRINT_CONFIG_CORE_KEY = ''core-config''"
definition FINGERPRINT_CONFIG_NLU_KEY :: string where
  "FINGERPRINT_CONFIG_NLU_KEY = ''nlu-config''"
definition FINGERPRINT_DOMAIN_WITHOUT_NLG_KEY :: string where
  "FINGERPRINT_DOMAIN_WITHOUT_NLG_KEY = ''domain''"
definition FINGERPRINT_NLG_KEY :: string where
  "FINGERPRINT_NLG_KEY = ''nlg''"
definition FINGERPRINT_RASA_VERSION_KEY :: string where
  "FINGERPRINT_RASA_VERSION_KEY = ''version''"
definition FINGERPRINT_STORIES_KEY :: string where
  "FINGERPRINT_STORIES_KEY = ''stories''"
definition FINGERPRINT_NLU_DATA_KEY :: string where
  "FINGERPRINT_NLU_DATA_KEY = ''messages''"

record Section =
  name :: string
  relevant_keys :: "string list"

definition SECTION_CORE :: Section where
  "SECTION_CORE = \<lparr> name = ''Core model'',
     relevant_keys = [FINGERPRINT_CONFIG_KEY, FINGERPRINT_CONFIG_CORE_KEY,
       FINGERPRINT_DOMAIN_WITHOUT_NLG_KEY, FINGERPRINT_STORIES_KEY,
       FINGERPRINT_RASA_VERSION_KEY] \<rparr>"

definition SECTION_NLU :: Section where
  "SECTION_NLU = \<lparr> name = ''NLU model'',
     relevant_keys = [FINGERPRINT_CONFIG_KEY, FINGERPRINT_CONFIG_NLU_KEY,
       FINGERPRINT_NLU_DATA_KEY, FINGERPRINT_RASA_VERSION_KEY] \<rparr>"

definition SECTION_NLG :: Section where
  "SECTION_NLG = \<lparr> name = ''NLG templates'', relevant_keys = [FINGERPRINT_NLG_KEY] \<rparr>"

section \<open>The fingerprint comparator\<close>

text \<open>
  \<^verbatim>\<open>did_section_fingerprint_change\<close> returns a bool for the Core and NLG sections and a list
  of languages (built from a set) for the NLU section.
\<close>

datatype change = Flag bool | Langs "string list"

text \<open>
  \<^verbatim>\<open>list(fp.get("messages").keys()) + list(fp.get("nlu-config").keys())\<close>: the languages of one
  fingerprint, NLU data first.
\<close>

definition fingerprint_languages :: "Fingerprint \<Rightarrow> pyerr + string list" where
  "fingerprint_languages fp =
     (case py_keys (dict_get fp FINGERPRINT_NLU_DATA_KEY) of
        Inl e \<Rightarrow> Inl e
      | Inr ms \<Rightarrow>
          (case py_keys (dict_get fp FINGERPRINT_CONFIG_NLU_KEY) of
             Inl e \<Rightarrow> Inl e
           | Inr cs \<Rightarrow> Inr (ms @ cs)))"

text \<open>
  The inner loop \<^verbatim>\<open>for lang in fingerprint1.get(k).keys()\<close>: \<open>d1\<close> is the dict
  \<^verbatim>\<open>fingerprint1.get(k)\<close>, \<open>v2\<close> is \<^verbatim>\<open>fingerprint2.get(k)\<close>, on which \<^verbatim>\<open>.get(lang)\<close> raises
  when it is not a dict.
\<close>

fun compare_languages ::
  "(string, pyval) fmap \<Rightarrow> pyval \<Rightarrow> string list \<Rightarrow> string set \<Rightarrow> pyerr + string set" where
  "compare_languages d1 v2 [] languages_to_retrain = Inr languages_to_retrain"
| "compare_languages d1 v2 (lang # langs) languages_to_retrain =
     (case py_get v2 lang of
        Inl e \<Rightarrow> Inl e
      | Inr x \<Rightarrow>
          compare_languages d1 v2 langs
            (if dict_get d1 lang \<noteq> x then insert lang languages_to_retrain
             else languages_to_retrain))"

text \<open>
  The two loops that close the NLU branch: every added language is put into the set, every
  removed language is taken out of it.
\<close>

fun add_languages :: "string list \<Rightarrow> string set \<Rightarrow> string set" where
  "add_languages [] languages_to_retrain = languages_to_retrain"
| "add_languages (l # ls) languages_to_retrain = add_languages ls (insert l languages_to_retrain)"

fun remove_languages :: "string list \<Rightarrow> string set \<Rightarrow> string set" where
  "remove_languages [] languages_to_retrain = languages_to_retrain"
| "remove_languages (l # ls) languages_to_retrain =
     remove_languages ls
       (if l \<in> languages_to_retrain then languages_to_retrain - {l} else languages_to_retrain)"

text \<open>
  The loop \<^verbatim>\<open>for k in section.relevant_keys\<close> of the NLU branch together with the code after
  it.  A differing value under a key that is not a dict in the old fingerprint returns
  \<^verbatim>\<open>list(all_languages)\<close> at once.
\<close>

fun nlu_keys_loop ::
  "Fingerprint \<Rightarrow> Fingerprint \<Rightarrow> string set \<Rightarrow> string list \<Rightarrow> string list \<Rightarrow>
   string list \<Rightarrow> string set \<Rightarrow> pyerr + change" where
  "nlu_keys_loop fingerprint1 fingerprint2 all_languages languages_added languages_removed
     [] languages_to_retrain =
     Inr (Langs (list_of_set
       (remove_languages languages_removed
          (add_languages languages_added languages_to_retrain))))"
| "nlu_keys_loop fingerprint1 fingerprint2 all_languages languages_added languages_removed
     (k # ks) languages_to_retrain =
     (case dict_get fingerprint1 k of
        PDict d1 \<Rightarrow>
          (case compare_languages d1 (dict_get fingerprint2 k) (dict_keys d1)
                  languages_to_retrain of
             Inl e \<Rightarrow> Inl e
           | Inr languages_to_retrain' \<Rightarrow>
               nlu_keys_loop fingerprint1 fingerprint2 all_languages languages_added
                 languages_removed ks languages_to_retrain')
      | v1 \<Rightarrow>
          if v1 \<noteq> dict_get fingerprint2 k then Inr (Langs (list_of_set all_languages))
          else nlu_keys_loop fingerprint1 fingerprint2 all_languages languages_added
                 languages_removed ks languages_to_retrain)"

text \<open>The loop of the Core and NLG sections: any differing relevant key returns \<^verbatim>\<open>True\<close>.\<close>

fun keys_differ :: "Fingerprint \<Rightarrow> Fingerprint \<Rightarrow> string list \<Rightarrow> bool" where
  "keys_differ fingerprint1 fingerprint2 [] = False"
| "keys_differ fingerprint1 fingerprint2 (k # ks) =
     (if dict_get fingerprint1 k \<noteq> dict_get fingerprint2 k then True
      else keys_differ fingerprint1 fingerprint2 ks)"

definition did_section_fingerprint_change ::
  "Fingerprint \<Rightarrow> Fingerprint \<Rightarrow> Section \<Rightarrow> pyerr + change" where
  "did_section_fingerprint_change fingerprint1 fingerprint2 section =
     (if name section = ''NLU model'' then
        (case fingerprint_languages fingerprint1 of
           Inl e \<Rightarrow> Inl e
         | Inr old_langs \<Rightarrow>
             (case fingerprint_languages fingerprint2 of
                Inl e \<Rightarrow> Inl e
              | Inr new_langs \<Rightarrow>
                  (let all_languages = set (old_langs @ new_langs);
                       languages_in_new_model = set new_langs;
                       languages_in_old_model = set old_langs;
                       languages_added =
                         list_of_set (languages_in_new_model - languages_in_old_model);
                       languages_removed =
                         list_of_set (languages_in_old_model - languages_in_new_model)
                   in nlu_keys_loop fingerprint1 fingerprint2 all_languages languages_added
                        languages_removed (relevant_keys section) {})))
      else Inr (Flag (keys_differ fingerprint1 fingerprint2 (relevant_keys section))))"

text \<open>
  Some relevant key whose value in the old fingerprint is not a dict has a different value in
  the new fingerprint: the condition under which the NLU branch returns early.
\<close>

definition global_mismatch :: "Fingerprint \<Rightarrow> Fingerprint \<Rightarrow> string list \<Rightarrow> bool" where
  "global_mismatch fp1 fp2 ks =
     (\<exists>k \<in> set ks. \<not> isinstance_dict (dict_get fp1 k) \<and> dict_get fp1 k \<noteq> dict_get fp2 k)"

section \<open>The regex featurizer: data\<close>

text \<open>
  A token carries its text, its character span \<^verbatim>\<open>[offset, end)\<close> in the message text and a
  property dict; the only property read here is \<^verbatim>\<open>"pattern"\<close>, a dict from pattern names to
  bools (\<^verbatim>\<open>t.get("pattern", default={})\<close>: an absent property is the empty dict).
\<close>

record Token =
  tok_text :: string
  offset :: int
  tok_end :: int
  tok_pattern :: "(string, bool) fmap"

text \<open>An entry of \<^verbatim>\<open>known_patterns\<close>: a dict with the keys \<^verbatim>\<open>name\<close> and \<^verbatim>\<open>pattern\<close>.\<close>

record KnownPattern =
  kp_name :: string
  kp_pattern :: string

text \<open>
  A message: its text and its token lists, stored under the property names
  \<^verbatim>\<open>TOKENS_NAMES[attribute]\<close>.
\<close>

record Message =
  msg_text :: string
  tokens :: "(string, Token list) fmap"

record RegexFeaturizer =
  known_patterns :: "KnownPattern list"
  return_sequence :: bool

text \<open>
  A two-dimensional numpy array: its shape and its rows.  The entries written here are the
  constants \<^verbatim>\<open>0.0\<close> and \<^verbatim>\<open>1.0\<close> only.
\<close>

record ndarray =
  shape :: "nat \<times> nat"
  cells :: "real list list"

definition np_zeros :: "nat \<Rightarrow> nat \<Rightarrow> ndarray" where
  "np_zeros r c = \<lparr> shape = (r, c), cells = replicate r (replicate c 0) \<rparr>"

text \<open>\<^verbatim>\<open>vec[i][j] = x\<close>: numpy raises \<^verbatim>\<open>IndexError\<close> outside the shape.\<close>

definition set_item :: "ndarray \<Rightarrow> nat \<Rightarrow> nat \<Rightarrow> real \<Rightarrow> pyerr + ndarray" where
  "set_item vec i j x =
     (if i < fst (shape vec) \<and> j < snd (shape vec)
      then Inr (vec \<lparr> cells := (cells vec)[i := (cells vec ! i)[j := x]] \<rparr>)
      else Inl IndexError)"

text \<open>
  \<^verbatim>\<open>list(re.finditer(pattern, text))\<close>, each match given by \<^verbatim>\<open>(match.start(), match.end())\<close>.
  Python's regular expression engine is a parameter of the model; it raises on a pattern that
  does not compile.
\<close>

type_synonym span = "int \<times> int"

type_synonym finditer = "string \<Rightarrow> string \<Rightarrow> pyerr + span list"

section \<open>The regex featurizer: \<^verbatim>\<open>_features_for_patterns\<close>\<close>

text \<open>The innermost loop \<^verbatim>\<open>for match in matches\<close> for one token and one pattern.\<close>

fun match_loop ::
  "Token \<Rightarrow> string \<Rightarrow> nat \<Rightarrow> nat \<Rightarrow> span list \<Rightarrow> (string, bool) fmap \<Rightarrow> ndarray \<Rightarrow>
   pyerr + ((string, bool) fmap \<times> ndarray)" where
  "match_loop t nm seq_index pattern_index [] patterns vec = Inr (patterns, vec)"
| "match_loop t nm seq_index pattern_index (m # ms) patterns vec =
     (if offset t < snd m \<and> tok_end t > fst m then
        (case set_item vec seq_index pattern_index 1 of
           Inl e \<Rightarrow> Inl e
         | Inr vec' \<Rightarrow> match_loop t nm seq_index pattern_index ms (fmupd nm True patterns) vec')
      else match_loop t nm seq_index pattern_index ms patterns vec)"

text \<open>
  The loop \<^verbatim>\<open>for token_index, t in enumerate(tokens)\<close> for one pattern: the mark of the
  pattern's name is reset to \<^verbatim>\<open>False\<close>, the matches are visited, and the dict is stored back
  into the token.
\<close>

fun token_loop ::
  "bool \<Rightarrow> string \<Rightarrow> nat \<Rightarrow> span list \<Rightarrow> nat \<Rightarrow> Token list \<Rightarrow> ndarray \<Rightarrow>
   pyerr + (Token list \<times> ndarray)" where
  "token_loop rs nm pattern_index ms token_index [] vec = Inr ([], vec)"
| "token_loop rs nm pattern_index ms token_index (t # ts) vec =
     (let patterns = fmupd nm False (tok_pattern t);
          seq_index = (if rs then token_index else 0)
      in case match_loop t nm seq_index pattern_index ms patterns vec of
           Inl e \<Rightarrow> Inl e
         | Inr (patterns', vec') \<Rightarrow>
             (case token_loop rs nm pattern_index ms (Suc token_index) ts vec' of
                Inl e \<Rightarrow> Inl e
              | Inr (ts', vec'') \<Rightarrow> Inr (t \<lparr> tok_pattern := patterns' \<rparr> # ts', vec'')))"

text \<open>The loop \<^verbatim>\<open>for pattern_index, pattern in enumerate(self.known_patterns)\<close>.\<close>

fun pattern_loop ::
  "finditer \<Rightarrow> bool \<Rightarrow> string \<Rightarrow> nat \<Rightarrow> KnownPattern list \<Rightarrow> Token list \<Rightarrow> ndarray \<Rightarrow>
   pyerr + (Token list \<times> ndarray)" where
  "pattern_loop re_finditer rs mtext pattern_index [] toks vec = Inr (toks, vec)"
| "pattern_loop re_finditer rs mtext pattern_index (p # ps) toks vec =
     (case re_finditer (kp_pattern p) mtext of
        Inl e \<Rightarrow> Inl e
      | Inr ms \<Rightarrow>
          (case token_loop rs (kp_name p) pattern_index ms 0 toks vec of
             Inl e \<Rightarrow> Inl e
           | Inr (toks', vec') \<Rightarrow>
               pattern_loop re_finditer rs mtext (Suc pattern_index) ps toks' vec'))"

text \<open>
  \<^verbatim>\<open>scipy.sparse.coo_matrix(vec)\<close>: the shape of the array and its non-zero entries as
  (row, column, value) triples.
\<close>

record coo_matrix =
  coo_shape :: "nat \<times> nat"
  coo_entries :: "(nat \<times> nat \<times> real) list"

definition to_coo_matrix :: "ndarray \<Rightarrow> coo_matrix" where
  "to_coo_matrix vec =
     \<lparr> coo_shape = shape vec,
       coo_entries =
         concat (map (\<lambda>i. concat (map (\<lambda>j. if cells vec ! i ! j \<noteq> 0
                                            then [(i, j, cells vec ! i ! j)] else [])
                                       [0 ..< snd (shape vec)]))
                     [0 ..< fst (shape vec)]) \<rparr>"

text \<open>
  \<^verbatim>\<open>_features_for_patterns(self, message, attribute)\<close>.  The tokens are changed in place, so
  the message is returned with them.  \<^verbatim>\<open>TOKENS_NAMES\<close> is a constant of
  \<^verbatim>\<open>rasa.nlu.constants\<close> and a parameter here.
\<close>

definition features_for_patterns ::
  "finditer \<Rightarrow> (string, string) fmap \<Rightarrow> RegexFeaturizer \<Rightarrow> Message \<Rightarrow> string \<Rightarrow>
   pyerr + (coo_matrix \<times> Message)" where
  "features_for_patterns re_finditer TOKENS_NAMES self message attribute =
     (case fmlookup TOKENS_NAMES attribute of
        None \<Rightarrow> Inl KeyError
      | Some key \<Rightarrow>
          (let toks = (case fmlookup (tokens message) key of None \<Rightarrow> [] | Some ts \<Rightarrow> ts);
               seq_length = (if return_sequence self then length toks else 1);
               vec = np_zeros seq_length (length (known_patterns self))
           in case pattern_loop re_finditer (return_sequence self) (msg_text message) 0
                     (known_patterns self) toks vec of
                Inl e \<Rightarrow> Inl e
              | Inr (toks', vec') \<Rightarrow>
                  Inr (to_coo_matrix vec',
                       (case fmlookup (tokens message) key of
                          None \<Rightarrow> message
                        | Some ts \<Rightarrow> message \<lparr> tokens := fmupd key toks' (tokens message) \<rparr>))))"

section \<open>The regex featurizer: notions used in the statements\<close>

text \<open>
  The overlap test of the source, \<^verbatim>\<open>t.offset < match.end() and t.end > match.start()\<close>,
  and whether some match of a list overlaps a token.
\<close>

definition overlaps :: "Token \<Rightarrow> span \<Rightarrow> bool" where
  "overlaps t m = (offset t < snd m \<and> tok_end t > fst m)"

definition hit :: "Token \<Rightarrow> span list \<Rightarrow> bool" where
  "hit t ms = (\<exists>m \<in> set ms. overlaps t m)"

text \<open>Arrays whose rows agree with their shape, a single cell, and arrays that differ from
  another one exactly by the cells set to \<open>1\<close>.\<close>

definition wf_vec :: "ndarray \<Rightarrow> bool" where
  "wf_vec v =
     (length (cells v) = fst (shape v) \<and>
      (\<forall>i < length (cells v). length (cells v ! i) = snd (shape v)))"

definition cell :: "ndarray \<Rightarrow> nat \<Rightarrow> nat \<Rightarrow> real" where
  "cell v r c = cells v ! r ! c"

definition same_but :: "ndarray \<Rightarrow> ndarray \<Rightarrow> (nat \<Rightarrow> nat \<Rightarrow> bool) \<Rightarrow> bool" where
  "same_but v v' P =
     (wf_vec v' \<and> shape v' = shape v \<and>
      (\<forall>r c. r < fst (shape v) \<longrightarrow> c < snd (shape v) \<longrightarrow>
         cell v' r c = (if P r c then 1 else cell v r c)))"

text \<open>
  The matches of a pattern in a text (none when the engine raises), the effect of one pattern
  on a token's marks, and the effect of all patterns in order.
\<close>

definition matches_of :: "finditer \<Rightarrow> KnownPattern \<Rightarrow> string \<Rightarrow> span list" where
  "matches_of re_finditer p mtext =
     (case re_finditer (kp_pattern p) mtext of Inl e \<Rightarrow> [] | Inr ms \<Rightarrow> ms)"

definition mark :: "string \<Rightarrow> span list \<Rightarrow> Token \<Rightarrow> Token" where
  "mark nm ms t = t \<lparr> tok_pattern := fmupd nm (hit t ms) (tok_pattern t) \<rparr>"

fun apply_marks :: "finditer \<Rightarrow> string \<Rightarrow> KnownPattern list \<Rightarrow> Token \<Rightarrow> Token" where
  "apply_marks fi mtext [] t = t"
| "apply_marks fi mtext (p # ps) t =
     apply_marks fi mtext ps (mark (kp_name p) (matches_of fi p mtext) t)"

section \<open>Files, archives and the Python runtime\<close>

text \<open>
  A path is its list of components; \<^verbatim>\<open>os.path.join(p, name)\<close> appends a component and the
  empty list is the empty path \<^verbatim>\<open>""\<close>.  A file holds bytes.  The bytes of a gzip-compressed tar
  archive are represented by the members the archive stores, each under its archive name.
  A file system lists its entries in the order in which \<^verbatim>\<open>os.listdir\<close> and \<^verbatim>\<open>os.scandir\<close>
  report them.
\<close>

type_synonym path = "string list"

datatype node = File string | Dir | TarGz "(path \<times> node) list"

type_synonym filesystem = "(path \<times> node) list"

definition path_exists :: "filesystem \<Rightarrow> path \<Rightarrow> bool" where
  "path_exists fs p = (p \<noteq> [] \<and> map_of fs p \<noteq> None)"

definition isdir :: "filesystem \<Rightarrow> path \<Rightarrow> bool" where
  "isdir fs p = (p \<noteq> [] \<and> map_of fs p = Some Dir)"

definition isfile :: "filesystem \<Rightarrow> path \<Rightarrow> bool" where
  "isfile fs p = (p \<noteq> [] \<and> map_of fs p \<noteq> None \<and> map_of fs p \<noteq> Some Dir)"

definition listdir :: "filesystem \<Rightarrow> path \<Rightarrow> string list" where
  "listdir fs d = map (\<lambda>(p, n). last p) (filter (\<lambda>(p, n). p \<noteq> [] \<and> butlast p = d) fs)"

text \<open>A path lies in the tree below \<open>d\<close> (\<open>d\<close> itself included).\<close>

definition under :: "path \<Rightarrow> path \<Rightarrow> bool" where
  "under d p = (take (length d) p = d)"

text \<open>\<^verbatim>\<open>shutil.rmtree(d)\<close>: the directory and everything below it are gone.\<close>

definition rmtree :: "path \<Rightarrow> filesystem \<Rightarrow> filesystem" where
  "rmtree d fs = filter (\<lambda>(p, n). \<not> under d p) fs"

text \<open>
  What \<^verbatim>\<open>src/\<close> calls and does not contain: the parser behind \<^verbatim>\<open>read_json_file\<close>, the text
  \<^verbatim>\<open>dump_obj_as_json_to_file\<close> writes for an object, the text \<^verbatim>\<open>write_json_to_file\<close> writes
  for an indent and an object, \<^verbatim>\<open>shutil.move\<close> (which may raise and may change the files
  either way), the directory \<^verbatim>\<open>tempfile.mkdtemp()\<close> creates, and the comparison
  \<^verbatim>\<open>version.parse(v) < version.parse(MINIMUM_COMPATIBLE_VERSION)\<close>, which raises on a value
  that is no version string.
\<close>

record runtime =
  json_loads :: "string \<Rightarrow> pyerr + pyval"
  dump_obj_as_json :: "pyval \<Rightarrow> string"
  json_dumps_indent :: "nat \<Rightarrow> pyval \<Rightarrow> string"
  shutil_move :: "path option \<Rightarrow> path \<Rightarrow> filesystem \<Rightarrow> (pyerr + unit) \<times> filesystem"
  mkdtemp :: path
  version_outdated :: "pyval \<Rightarrow> pyerr + bool"

text \<open>
  Writing a text file, \<^verbatim>\<open>open(p, "w")\<close> and \<^verbatim>\<open>write\<close>: the path must not be a directory and
  its parent must be one (a path of one component lies in the working directory).
\<close>

definition write_file :: "path \<Rightarrow> string \<Rightarrow> filesystem \<Rightarrow> (pyerr + unit) \<times> filesystem" where
  "write_file p content fs =
     (if p = [] \<or> isdir fs p \<or> (butlast p \<noteq> [] \<and> \<not> isdir fs (butlast p))
      then (Inl OSError, fs)
      else (Inr (), AList.update p (File content) fs))"

text \<open>
  \<^verbatim>\<open>os.makedirs(d)\<close>: the directory and its missing ancestors are created.  The empty path,
  an existing path and an ancestor that is no directory raise.
\<close>

fun makedirs_prefixes :: "path list \<Rightarrow> filesystem \<Rightarrow> filesystem" where
  "makedirs_prefixes [] fs = fs"
| "makedirs_prefixes (d # ds) fs =
     makedirs_prefixes ds (if d = [] \<or> path_exists fs d then fs else AList.update d Dir fs)"

definition makedirs :: "path \<Rightarrow> filesystem \<Rightarrow> (pyerr + unit) \<times> filesystem" where
  "makedirs d fs =
     (let ancestors = map (\<lambda>k. take k d) [1 ..< Suc (length d)]
      in if d = [] \<or> path_exists fs d \<or>
            list_ex (\<lambda>p. path_exists fs p \<and> \<not> isdir fs p) ancestors
         then (Inl OSError, fs)
         else (Inr (), makedirs_prefixes ancestors fs))"

definition FINGERPRINT_FILE_PATH :: string where
  "FINGERPRINT_FILE_PATH = ''fingerprint.json''"

text \<open>
  Modelled from the spec: \<^verbatim>\<open>DEFAULT_CORE_SUBDIRECTORY_NAME\<close> of \<^verbatim>\<open>rasa.shared.constants\<close> is
  not in \<^verbatim>\<open>src/\<close>; the spec gives the archive's subdirectories as \<^verbatim>\<open>core/\<close> and
  \<^verbatim>\<open>nlu-<language>/\<close>.
\<close>

definition DEFAULT_CORE_SUBDIRECTORY_NAME :: string where
  "DEFAULT_CORE_SUBDIRECTORY_NAME = ''core''"

section \<open>Unpacking a model and reading its parts\<close>

text \<open>\<^verbatim>\<open>tar.extractall(working_directory)\<close>: every member is written below the directory.\<close>

fun extractall :: "(path \<times> node) list \<Rightarrow> path \<Rightarrow> filesystem \<Rightarrow> filesystem" where
  "extractall [] working_directory fs = fs"
| "extractall ((arcname, n) # members) working_directory fs =
     extractall members working_directory (AList.update (working_directory @ arcname) n fs)"

text \<open>
  \<^verbatim>\<open>unpack_model(model_file, working_directory)\<close>.  A failure to open the archive (a
  missing file, a directory, a file that is no archive) is logged and raised again.
\<close>

definition unpack_model ::
  "runtime \<Rightarrow> path \<Rightarrow> path option \<Rightarrow> filesystem \<Rightarrow> (pyerr + path) \<times> filesystem" where
  "unpack_model rt model_file working_directory fs =
     (let (wd, fs1) =
            (case working_directory of
               None \<Rightarrow> (mkdtemp rt, AList.update (mkdtemp rt) Dir fs)
             | Some d \<Rightarrow> (d, fs))
      in case map_of fs1 model_file of
           Some (TarGz members) \<Rightarrow> (Inr wd, extractall members wd fs1)
         | Some (File content) \<Rightarrow> (Inl TarError, fs1)
         | Some Dir \<Rightarrow> (Inl OSError, fs1)
         | None \<Rightarrow> (Inl OSError, fs1))"

text \<open>
  \<^verbatim>\<open>fingerprint_from_path(model_path)\<close>: the parsed fingerprint file, or the empty dict when
  the path or the file does not exist.  The bytes of an archive are no JSON text.
\<close>

definition fingerprint_from_path :: "runtime \<Rightarrow> filesystem \<Rightarrow> path \<Rightarrow> pyerr + pyval" where
  "fingerprint_from_path rt fs model_path =
     (if model_path = [] \<or> \<not> path_exists fs model_path then Inr (PDict fmempty)
      else
        (let fingerprint_path = model_path @ [FINGERPRINT_FILE_PATH]
         in if isfile fs fingerprint_path then
              (case map_of fs fingerprint_path of
                 Some (File content) \<Rightarrow> json_loads rt content
               | Some (TarGz members) \<Rightarrow> Inl ValueError
               | Some Dir \<Rightarrow> Inl OSError
               | None \<Rightarrow> Inl OSError)
            else Inr (PDict fmempty)))"

text \<open>\<^verbatim>\<open>s.split(sep)\<close> for a one-character separator.\<close>

fun py_split :: "char \<Rightarrow> string \<Rightarrow> string list" where
  "py_split sep [] = [[]]"
| "py_split sep (c # cs) =
     (if c = sep then [] # py_split sep cs
      else (case py_split sep cs of
              [] \<Rightarrow> [[c]]
            | w # ws \<Rightarrow> (c # w) # ws))"

text \<open>
  The loop of \<^verbatim>\<open>get_model_subdirectories\<close> inside \<^verbatim>\<open>try ... except Exception: pass\<close>: a
  directory name with no \<^verbatim>\<open>-\<close> raises \<^verbatim>\<open>IndexError\<close> at \<^verbatim>\<open>split("-")[1]\<close>, which ends the loop
  and keeps what was stored before.
\<close>

fun nlu_paths_loop ::
  "path \<Rightarrow> string list \<Rightarrow> (string \<times> path option) list \<Rightarrow> (string \<times> path option) list" where
  "nlu_paths_loop unpacked_model_path [] nlu_paths = nlu_paths"
| "nlu_paths_loop unpacked_model_path (model # models) nlu_paths =
     (case py_split CHR ''-'' model of
        w # lang # ws \<Rightarrow>
          nlu_paths_loop unpacked_model_path models
            (AList.update lang (Some (unpacked_model_path @ [model])) nlu_paths)
      | _ \<Rightarrow> nlu_paths)"

text \<open>
  \<^verbatim>\<open>get_model_subdirectories(unpacked_model_path)\<close>: the Core directory if it exists, and a
  dict from languages to NLU directories.  \<^verbatim>\<open>os.listdir\<close> raises when the path is no
  directory, and \<^verbatim>\<open>models_fingerprint.get("nlu-config", {})\<close> gives the empty dict only for a
  missing key.
\<close>

definition get_model_subdirectories ::
  "runtime \<Rightarrow> filesystem \<Rightarrow> path \<Rightarrow> pyerr + (path option \<times> (string \<times> path option) list)" where
  "get_model_subdirectories rt fs unpacked_model_path =
     (let core_path = unpacked_model_path @ [DEFAULT_CORE_SUBDIRECTORY_NAME];
          nlu_models = filter (\<lambda>d. take 3 d = ''nlu'') (listdir fs unpacked_model_path)
      in if \<not> isdir fs unpacked_model_path then Inl OSError
         else
           (case fingerprint_from_path rt fs unpacked_model_path of
              Inl e \<Rightarrow> Inl e
            | Inr (PDict models_fingerprint) \<Rightarrow>
                (case py_keys (case fmlookup models_fingerprint FINGERPRINT_CONFIG_NLU_KEY of
                                 None \<Rightarrow> PDict fmempty
                               | Some v \<Rightarrow> v) of
                   Inl e \<Rightarrow> Inl e
                 | Inr langs \<Rightarrow>
                     (let nlu_paths =
                            nlu_paths_loop unpacked_model_path nlu_models
                              (map (\<lambda>lang. (lang, None)) langs);
                          core_path' = (if isdir fs core_path then Some core_path else None)
                      in if core_path' = None \<and> length nlu_paths = 0 then Inl ModelNotFound
                         else Inr (core_path', nlu_paths)))
            | Inr v \<Rightarrow> Inl AttributeError))"

section \<open>The retraining decision\<close>

text \<open>
  The fields of \<^verbatim>\<open>FingerprintComparisonResult\<close>.  \<^verbatim>\<open>core\<close> and \<^verbatim>\<open>nlg\<close> hold what the
  comparator returns for their sections, \<^verbatim>\<open>nlu\<close> a bool at first and the list of languages
  in the end.
\<close>

record FingerprintComparisonResult =
  nlu :: change
  core :: change
  nlg :: change
  force_training :: bool

text \<open>Python's truth value of a bool or a list, and \<^verbatim>\<open>a or b\<close>, which returns an operand.\<close>

fun truthy :: "change \<Rightarrow> bool" where
  "truthy (Flag b) = b"
| "truthy (Langs ls) = (ls \<noteq> [])"

definition py_or :: "change \<Rightarrow> change \<Rightarrow> change" where
  "py_or a b = (if truthy a then a else b)"

definition is_training_required :: "FingerprintComparisonResult \<Rightarrow> bool" where
  "is_training_required self =
     (truthy (nlg self) \<or> truthy (nlu self) \<or> truthy (core self) \<or> force_training self)"

definition should_retrain_core :: "FingerprintComparisonResult \<Rightarrow> change" where
  "should_retrain_core self = py_or (Flag (force_training self)) (core self)"

definition should_retrain_nlg :: "FingerprintComparisonResult \<Rightarrow> change" where
  "should_retrain_nlg self = py_or (should_retrain_core self) (nlg self)"

definition should_retrain_nlu :: "FingerprintComparisonResult \<Rightarrow> change" where
  "should_retrain_nlu self = py_or (Flag (force_training self)) (nlu self)"

text \<open>\<^verbatim>\<open>x.append(lang)\<close>: a bool has no such attribute.\<close>

fun py_append :: "change \<Rightarrow> string \<Rightarrow> pyerr + change" where
  "py_append (Langs ls) lang = Inr (Langs (ls @ [lang]))"
| "py_append (Flag b) lang = Inl AttributeError"

text \<open>\<^verbatim>\<open>move_model(source, target)\<close>: any exception of \<^verbatim>\<open>shutil.move\<close> becomes \<^verbatim>\<open>False\<close>.\<close>

definition move_model ::
  "runtime \<Rightarrow> path option \<Rightarrow> path \<Rightarrow> filesystem \<Rightarrow> bool \<times> filesystem" where
  "move_model rt source target fs =
     (case shutil_move rt source target fs of
        (Inl e, fs') \<Rightarrow> (False, fs')
      | (Inr u, fs') \<Rightarrow> (True, fs'))"

text \<open>
  The loop \<^verbatim>\<open>for lang in old_nlu.keys()\<close> of \<^verbatim>\<open>should_retrain\<close>; \<open>langs\<close> are the keys still
  to visit.
\<close>

fun nlu_move_loop ::
  "runtime \<Rightarrow> Fingerprint \<Rightarrow> path \<Rightarrow> (string \<times> path option) list \<Rightarrow> string list \<Rightarrow>
   change \<Rightarrow> filesystem \<Rightarrow> (pyerr + change) \<times> filesystem" where
  "nlu_move_loop rt new_fingerprint train_path old_nlu [] languages_to_train fs =
     (Inr languages_to_train, fs)"
| "nlu_move_loop rt new_fingerprint train_path old_nlu (lang # langs) languages_to_train fs =
     (let target_path = train_path @ [''nlu-'' @ lang]
      in case py_keys (dict_get new_fingerprint ''nlu-config'') of
           Inl e \<Rightarrow> (Inl e, fs)
         | Inr new_langs \<Rightarrow>
             if lang \<in> set new_langs then
               (case move_model rt (case map_of old_nlu lang of None \<Rightarrow> None | Some src \<Rightarrow> src)
                       target_path fs of
                  (True, fs') \<Rightarrow>
                    nlu_move_loop rt new_fingerprint train_path old_nlu langs
                      languages_to_train fs'
                | (False, fs') \<Rightarrow>
                    (case py_append languages_to_train lang of
                       Inl e \<Rightarrow> (Inl e, fs')
                     | Inr languages_to_train' \<Rightarrow>
                         nlu_move_loop rt new_fingerprint train_path old_nlu langs
                           languages_to_train' fs'))
             else nlu_move_loop rt new_fingerprint train_path old_nlu langs
                    languages_to_train fs)"

text \<open>
  The three comparisons from which \<^verbatim>\<open>should_retrain\<close> builds its
  \<^verbatim>\<open>FingerprintComparisonResult\<close>; the arguments are evaluated in the order core, nlu, nlg.
\<close>

definition compare_fingerprints ::
  "Fingerprint \<Rightarrow> Fingerprint \<Rightarrow> bool \<Rightarrow> pyerr + FingerprintComparisonResult" where
  "compare_fingerprints last_fingerprint new_fingerprint model_outdated =
     (case did_section_fingerprint_change last_fingerprint new_fingerprint SECTION_CORE of
        Inl e \<Rightarrow> Inl e
      | Inr core_changed \<Rightarrow>
          (case did_section_fingerprint_change last_fingerprint new_fingerprint SECTION_NLU of
             Inl e \<Rightarrow> Inl e
           | Inr nlu_changed \<Rightarrow>
               (case did_section_fingerprint_change last_fingerprint new_fingerprint
                       SECTION_NLG of
                  Inl e \<Rightarrow> Inl e
                | Inr nlg_changed \<Rightarrow>
                    Inr \<lparr> nlu = nlu_changed, core = core_changed, nlg = nlg_changed,
                          force_training = model_outdated \<rparr>)))"

text \<open>
  The rest of the \<^verbatim>\<open>with\<close> block: the Core artifacts are moved when Core need not be
  retrained, NLG follows a failed Core move, and the NLU artifacts are moved language by
  language.
\<close>

definition merge_core ::
  "runtime \<Rightarrow> path \<Rightarrow> path option \<Rightarrow> FingerprintComparisonResult \<Rightarrow> filesystem \<Rightarrow>
   (bool \<times> FingerprintComparisonResult) \<times> filesystem" where
  "merge_core rt train_path old_core fingerprint_comparison fs =
     (if \<not> truthy (should_retrain_core fingerprint_comparison) then
        (let target_path = train_path @ [DEFAULT_CORE_SUBDIRECTORY_NAME];
             (moved, fs') = move_model rt old_core target_path fs;
             core_merge_failed = \<not> moved
         in ((core_merge_failed, fingerprint_comparison \<lparr> core := Flag core_merge_failed \<rparr>),
             fs'))
      else ((False, fingerprint_comparison), fs))"

definition merge_old_model ::
  "runtime \<Rightarrow> Fingerprint \<Rightarrow> path \<Rightarrow> path option \<Rightarrow> (string \<times> path option) list \<Rightarrow>
   FingerprintComparisonResult \<Rightarrow> filesystem \<Rightarrow>
   (pyerr + FingerprintComparisonResult) \<times> filesystem" where
  "merge_old_model rt new_fingerprint train_path old_core old_nlu fingerprint_comparison fs =
     (let ((core_merge_failed, fingerprint_comparison1), fs1) =
            merge_core rt train_path old_core fingerprint_comparison fs;
          fingerprint_comparison2 =
            (if \<not> truthy (should_retrain_nlg fingerprint_comparison1) \<and> core_merge_failed
             then fingerprint_comparison1 \<lparr> nlg := Flag True \<rparr>
             else fingerprint_comparison1);
          languages_to_train = should_retrain_nlu fingerprint_comparison2
      in case nlu_move_loop rt new_fingerprint train_path old_nlu (map fst old_nlu)
                languages_to_train fs1 of
           (Inl e, fs2) \<Rightarrow> (Inl e, fs2)
         | (Inr languages_to_train', fs2) \<Rightarrow>
             (Inr (fingerprint_comparison2 \<lparr> nlu := languages_to_train' \<rparr>), fs2))"

text \<open>
  The body of \<^verbatim>\<open>with unpack_model(old_model) as unpacked\<close> in \<^verbatim>\<open>should_retrain\<close>.  The
  first \<^verbatim>\<open>.get\<close> on the loaded fingerprint raises when the file holds no JSON object.
\<close>

definition should_retrain_body ::
  "runtime \<Rightarrow> Fingerprint \<Rightarrow> path \<Rightarrow> path \<Rightarrow> filesystem \<Rightarrow>
   (pyerr + FingerprintComparisonResult) \<times> filesystem" where
  "should_retrain_body rt new_fingerprint train_path unpacked fs =
     (case fingerprint_from_path rt fs unpacked of
        Inl e \<Rightarrow> (Inl e, fs)
      | Inr loaded \<Rightarrow>
          (case get_model_subdirectories rt fs unpacked of
             Inl e \<Rightarrow> (Inl e, fs)
           | Inr (old_core, old_nlu) \<Rightarrow>
               (case loaded of
                  PDict last_fingerprint \<Rightarrow>
                    (case version_outdated rt (dict_get last_fingerprint ''version'') of
                       Inl e \<Rightarrow> (Inl e, fs)
                     | Inr model_outdated \<Rightarrow>
                         (case compare_fingerprints last_fingerprint new_fingerprint
                                 model_outdated of
                            Inl e \<Rightarrow> (Inl e, fs)
                          | Inr fingerprint_comparison \<Rightarrow>
                              merge_old_model rt new_fingerprint train_path old_core old_nlu
                                fingerprint_comparison fs))
                | PNone \<Rightarrow> (Inl AttributeError, fs)
                | PStr x \<Rightarrow> (Inl AttributeError, fs)
                | PInt x \<Rightarrow> (Inl AttributeError, fs)
                | PList x \<Rightarrow> (Inl AttributeError, fs))))"

text \<open>
  \<^verbatim>\<open>should_retrain(new_fingerprint, old_model, train_path)\<close>.

  Modelled from the spec: \<^verbatim>\<open>TempDirectoryPath\<close> of \<^verbatim>\<open>rasa.utils.common\<close> is not in \<^verbatim>\<open>src/\<close>;
  the spec says the unpacked directory is cleaned up when the caller's usage ends, so the
  directory is removed when the \<^verbatim>\<open>with\<close> block is left, by a return or by an exception.
\<close>

definition should_retrain ::
  "runtime \<Rightarrow> Fingerprint \<Rightarrow> path option \<Rightarrow> path \<Rightarrow> filesystem \<Rightarrow>
   (pyerr + FingerprintComparisonResult) \<times> filesystem" where
  "should_retrain rt new_fingerprint old_model train_path fs =
     (let fingerprint_comparison =
            \<lparr> nlu = Flag True, core = Flag True, nlg = Flag True, force_training = False \<rparr>
      in case old_model of
           None \<Rightarrow> (Inr fingerprint_comparison, fs)
         | Some model_file \<Rightarrow>
             if \<not> path_exists fs model_file then (Inr fingerprint_comparison, fs)
             else
               (case unpack_model rt model_file None fs of
                  (Inl e, fs1) \<Rightarrow> (Inl e, fs1)
                | (Inr unpacked, fs1) \<Rightarrow>
                    (case should_retrain_body rt new_fingerprint train_path unpacked fs1 of
                       (r, fs2) \<Rightarrow> (r, rmtree unpacked fs2))))"

section \<open>Packaging a model\<close>

text \<open>Python's truth value of a JSON-like value: \<^verbatim>\<open>None\<close>, zero and the empty containers are false.\<close>

fun py_truthy :: "pyval \<Rightarrow> bool" where
  "py_truthy PNone = False"
| "py_truthy (PStr s) = (s \<noteq> [])"
| "py_truthy (PInt i) = (i \<noteq> 0)"
| "py_truthy (PList xs) = (xs \<noteq> [])"
| "py_truthy (PDict d) = (d \<noteq> fmempty)"

text \<open>\<^verbatim>\<open>persist_fingerprint(output_path, fingerprint)\<close>\<close>

definition persist_fingerprint ::
  "runtime \<Rightarrow> path \<Rightarrow> Fingerprint \<Rightarrow> filesystem \<Rightarrow> (pyerr + unit) \<times> filesystem" where
  "persist_fingerprint rt output_path fingerprint fs =
     (let p = output_path @ [FINGERPRINT_FILE_PATH]
      in write_file p (dump_obj_as_json rt (PDict fingerprint)) fs)"

text \<open>
  \<^verbatim>\<open>tar.add(p, arcname=arcname)\<close>: the entry at \<open>p\<close> and, for a directory, everything below
  it, each under the archive name with the rest of its path.  \<^verbatim>\<open>tarfile\<close> does not add the
  archive that is being written to itself.
\<close>

definition tar_add :: "filesystem \<Rightarrow> path \<Rightarrow> path \<Rightarrow> path \<Rightarrow> (path \<times> node) list" where
  "tar_add fs output_filename p arcname =
     map (\<lambda>(q, n). (arcname @ drop (length p) q, n))
       (filter (\<lambda>(q, n). under p q \<and> q \<noteq> output_filename) fs)"

text \<open>
  \<^verbatim>\<open>create_package_rasa(training_directory, output_filename, fingerprint)\<close>.  Opening the
  archive for writing raises when its path is a directory or its parent is none, and creates
  the file before the training directory is scanned.
\<close>

definition create_package_rasa ::
  "runtime \<Rightarrow> path \<Rightarrow> path \<Rightarrow> Fingerprint option \<Rightarrow> filesystem \<Rightarrow>
   (pyerr + path) \<times> filesystem" where
  "create_package_rasa rt training_directory output_filename fingerprint fs =
     (case (case fingerprint of
              None \<Rightarrow> (Inr (), fs)
            | Some fp \<Rightarrow>
                if py_truthy (PDict fp) then persist_fingerprint rt training_directory fp fs
                else (Inr (), fs)) of
        (Inl e, fs0) \<Rightarrow> (Inl e, fs0)
      | (Inr u, fs0) \<Rightarrow>
          (let output_directory = butlast output_filename
           in case (if \<not> path_exists fs0 output_directory then makedirs output_directory fs0
                    else (Inr (), fs0)) of
                (Inl e, fs1) \<Rightarrow> (Inl e, fs1)
              | (Inr u, fs1) \<Rightarrow>
                  if output_filename = [] \<or> isdir fs1 output_filename \<or>
                     \<not> isdir fs1 output_directory
                  then (Inl OSError, fs1)
                  else
                    (let fs2 = AList.update output_filename (TarGz []) fs1
                     in if \<not> isdir fs2 training_directory then (Inl OSError, fs2)
                        else
                          (let members =
                                 concat (map (\<lambda>elem_name.
                                     tar_add fs2 output_filename
                                       (training_directory @ [elem_name]) [elem_name])
                                   (listdir fs2 training_directory));
                               fs3 = AList.update output_filename (TarGz members) fs2
                           in (Inr output_filename, rmtree training_directory fs3)))))"

section \<open>Persisting and loading the regex featurizer\<close>

text \<open>The Python object \<^verbatim>\<open>known_patterns\<close> is: a list of dicts with the keys \<^verbatim>\<open>name\<close> and
  \<^verbatim>\<open>pattern\<close>.\<close>

definition py_of_pattern :: "KnownPattern \<Rightarrow> pyval" where
  "py_of_pattern p =
     PDict (fmupd ''pattern'' (PStr (kp_pattern p)) (fmupd ''name'' (PStr (kp_name p)) fmempty))"

definition py_of_patterns :: "KnownPattern list \<Rightarrow> pyval" where
  "py_of_patterns ps = PList (map py_of_pattern ps)"

text \<open>
  \<^verbatim>\<open>persist(self, file_name, model_dir)\<close>: the patterns are written as JSON with indent 4 and
  the metadata \<^verbatim>\<open>{"file": file_name}\<close> is returned.
\<close>

definition persist ::
  "runtime \<Rightarrow> RegexFeaturizer \<Rightarrow> string \<Rightarrow> path \<Rightarrow> filesystem \<Rightarrow>
   (pyerr + (string, pyval) fmap) \<times> filesystem" where
  "persist rt self file_name model_dir fs =
     (let file_name' = file_name @ ''.pkl'';
          regex_file = model_dir @ [file_name']
      in case write_file regex_file
                (json_dumps_indent rt 4 (py_of_patterns (known_patterns self))) fs of
           (Inl e, fs') \<Rightarrow> (Inl e, fs')
         | (Inr u, fs') \<Rightarrow> (Inr (fmupd ''file'' (PStr file_name') fmempty), fs'))"

text \<open>
  The featurizer \<^verbatim>\<open>load\<close> builds: its configuration and the object read from the file, which
  is whatever JSON value the file holds (\<^verbatim>\<open>known_patterns if known_patterns else []\<close>).
\<close>

record LoadedRegexFeaturizer =
  component_config :: "(string, pyval) fmap"
  loaded_known_patterns :: pyval

text \<open>
  \<^verbatim>\<open>load(cls, meta, model_dir)\<close>.  \<^verbatim>\<open>os.path.join\<close> raises \<^verbatim>\<open>TypeError\<close> when the directory or
  the file name is no string.
\<close>

definition load ::
  "runtime \<Rightarrow> (string, pyval) fmap \<Rightarrow> path option \<Rightarrow> filesystem \<Rightarrow>
   pyerr + LoadedRegexFeaturizer" where
  "load rt meta model_dir fs =
     (case (model_dir, dict_get meta ''file'') of
        (Some d, PStr file_name) \<Rightarrow>
          (let regex_file = d @ [file_name]
           in if path_exists fs regex_file then
                (case map_of fs regex_file of
                   Some (File content) \<Rightarrow>
                     (case json_loads rt content of
                        Inl e \<Rightarrow> Inl e
                      | Inr patterns \<Rightarrow>
                          Inr \<lparr> component_config = meta,
                                loaded_known_patterns =
                                  (if py_truthy patterns then patterns else PList []) \<rparr>)
                 | _ \<Rightarrow> Inl OSError)
              else Inr \<lparr> component_config = meta, loaded_known_patterns = PList [] \<rparr>)
      | _ \<Rightarrow> Inl TypeError)"

section \<open>The lookup-table regex\<close>

text \<open>
  A lookup table has a name and its elements, given either as a list or as the path of a
  file with one element per line.
\<close>

datatype lookup_elements = ElementList "string list" | ElementFile path

record LookupTable =
  table_name :: string
  elements :: lookup_elements

text \<open>
  \<^verbatim>\<open>re.escape\<close> (Python 3.7 and later): a backslash is put before each character that can
  have a special meaning in a regular expression.
\<close>

definition special_chars :: string where
  "special_chars =
     [CHR ''('', CHR '')'', CHR ''['', CHR '']'', CHR ''{'', CHR ''}'', CHR ''?'', CHR ''*'',
      CHR ''+'', CHR ''-'', CHR ''|'', CHR ''^'', CHR ''$'', CHR 0x5C, CHR ''.'', CHR ''&'',
      CHR ''~'', CHR ''#'', CHR '' '', CHR 0x09, CHR 0x0A, CHR 0x0D, CHR 0x0B, CHR 0x0C]"

fun re_escape :: "string \<Rightarrow> string" where
  "re_escape [] = []"
| "re_escape (c # cs) =
     (if c \<in> set special_chars then CHR 0x5C # c # re_escape cs else c # re_escape cs)"

text \<open>\<^verbatim>\<open>sep.join(xs)\<close>\<close>

fun py_join :: "string \<Rightarrow> string list \<Rightarrow> string" where
  "py_join sep [] = []"
| "py_join sep [x] = x"
| "py_join sep (x # y # ys) = x @ sep @ py_join sep (y # ys)"

text \<open>
  Reading the lines of a text file: \<^verbatim>\<open>\r\n\<close> and \<^verbatim>\<open>\r\<close> end a line as \<^verbatim>\<open>\n\<close> does, and
  \<^verbatim>\<open>line.strip()\<close> removes the white space at both ends.
\<close>

fun universal_newlines :: "string \<Rightarrow> string" where
  "universal_newlines [] = []"
| "universal_newlines [c] = (if c = CHR 0x0D then [CHR 0x0A] else [c])"
| "universal_newlines (c # d # cs) =
     (if c = CHR 0x0D \<and> d = CHR 0x0A then CHR 0x0A # universal_newlines cs
      else if c = CHR 0x0D then CHR 0x0A # universal_newlines (d # cs)
      else c # universal_newlines (d # cs))"

definition isspace :: "char \<Rightarrow> bool" where
  "isspace c =
     (c \<in> {CHR '' '', CHR 0x09, CHR 0x0A, CHR 0x0B, CHR 0x0C, CHR 0x0D,
            CHR 0x1C, CHR 0x1D, CHR 0x1E, CHR 0x1F})"

definition strip :: "string \<Rightarrow> string" where
  "strip s = rev (dropWhile isspace (rev (dropWhile isspace s)))"

definition file_elements :: "string \<Rightarrow> string list" where
  "file_elements content =
     filter (\<lambda>new_element. new_element \<noteq> [])
       (map strip (py_split (CHR 0x0A) (universal_newlines content)))"

text \<open>
  \<^verbatim>\<open>_generate_lookup_regex(self, lookup_table)\<close>.  A file that cannot be opened raises
  \<^verbatim>\<open>ValueError\<close>.  In the Python source \<^verbatim>\<open>"\\b"\<close> is a backslash followed by \<^verbatim>\<open>b\<close>.
\<close>

definition generate_lookup_regex :: "filesystem \<Rightarrow> LookupTable \<Rightarrow> pyerr + string" where
  "generate_lookup_regex fs lookup_table =
     (case (case elements lookup_table of
              ElementList lookup_elements \<Rightarrow> Inr lookup_elements
            | ElementFile lookup_elements \<Rightarrow>
                (case map_of fs lookup_elements of
                   Some (File content) \<Rightarrow> Inr (file_elements content)
                 | _ \<Rightarrow> Inl ValueError)) of
        Inl e \<Rightarrow> Inl e
      | Inr elements_to_regex \<Rightarrow>
          (let elements_sanitized = map re_escape elements_to_regex;
               regex_string =
                 ''(?i)('' @ [CHR 0x5C, CHR ''b''] @
                 py_join ([CHR 0x5C, CHR ''b'', CHR ''|'', CHR 0x5C, CHR ''b'']) elements_sanitized @
                 [CHR 0x5C, CHR ''b'', CHR '')'']
           in Inr regex_string))"

text \<open>
  \<^verbatim>\<open>_add_lookup_table_regexes(self, lookup_tables)\<close>: one pattern per table is appended to
  \<^verbatim>\<open>known_patterns\<close>.
\<close>

fun add_lookup_table_regexes ::
  "filesystem \<Rightarrow> LookupTable list \<Rightarrow> KnownPattern list \<Rightarrow> pyerr + KnownPattern list" where
  "add_lookup_table_regexes fs [] known = Inr known"
| "add_lookup_table_regexes fs (table # tables) known =
     (case generate_lookup_regex fs table of
        Inl e \<Rightarrow> Inl e
      | Inr regex_pattern \<Rightarrow>
          add_lookup_table_regexes fs tables
            (known @ [\<lparr> kp_name = table_name table, kp_pattern = regex_pattern \<rparr>]))"

section \<open>The regular expressions \<^verbatim>\<open>_generate_lookup_regex\<close> emits\<close>

text \<open>
  The matching of Python's \<^verbatim>\<open>re\<close> module for the patterns of the shape
  \<^verbatim>\<open>(?i)(alternative|...|alternative)\<close>, where an alternative is a sequence of word
  boundaries \<^verbatim>\<open>\b\<close>, escaped characters and plain characters, on ASCII patterns and texts.
  Any other pattern is not parsed.
\<close>

datatype re_atom = WordBoundary | Literal char

definition isalnum :: "char \<Rightarrow> bool" where
  "isalnum c =
     (let n = (of_char c :: nat)
      in (48 \<le> n \<and> n \<le> 57) \<or> (65 \<le> n \<and> n \<le> 90) \<or> (97 \<le> n \<and> n \<le> 122))"

definition meta_chars :: string where
  "meta_chars =
     [CHR ''.'', CHR ''^'', CHR ''$'', CHR ''*'', CHR ''+'', CHR ''?'', CHR ''{'', CHR ''}'',
      CHR ''['', CHR '']'', CHR ''('']"

function parse_alternatives :: "string \<Rightarrow> re_atom list \<Rightarrow> re_atom list list option" where
  "parse_alternatives [] cur = None"
| "parse_alternatives (c # cs) cur =
     (if c = CHR '')'' then (if cs = [] then Some [cur] else None)
      else if c = CHR ''|'' then map_option (Cons cur) (parse_alternatives cs [])
      else if c = CHR 0x5C then
        (case cs of
           [] \<Rightarrow> None
         | d # ds \<Rightarrow>
             if d = CHR ''b'' then parse_alternatives ds (cur @ [WordBoundary])
             else if isalnum d then None
             else parse_alternatives ds (cur @ [Literal d]))
      else if c \<in> set meta_chars then None
      else parse_alternatives cs (cur @ [Literal c]))"
  by pat_completeness auto
termination
  by (relation "measure (\<lambda>(s, cur). length s)") auto

definition parse_regex :: "string \<Rightarrow> re_atom list list option" where
  "parse_regex s =
     (if take 5 s = ''(?i)('' then parse_alternatives (drop 5 s) [] else None)"

text \<open>
  A word character is a letter, a digit or the underscore; \<^verbatim>\<open>\b\<close> holds at a position where
  exactly one of the characters before and after it is a word character.  Under \<^verbatim>\<open>(?i)\<close> a
  character matches a letter of either case.
\<close>

definition is_word :: "char \<Rightarrow> bool" where
  "is_word c = (isalnum c \<or> c = CHR ''_'')"

definition word_boundary :: "string \<Rightarrow> nat \<Rightarrow> bool" where
  "word_boundary s i =
     (i \<le> length s \<and>
      ((0 < i \<and> is_word (s ! (i - 1))) \<noteq> (i < length s \<and> is_word (s ! i))))"

definition lower :: "char \<Rightarrow> char" where
  "lower c =
     (let n = (of_char c :: nat) in if 65 \<le> n \<and> n \<le> 90 then char_of (n + 32) else c)"

fun match_atoms :: "re_atom list \<Rightarrow> string \<Rightarrow> nat \<Rightarrow> nat option" where
  "match_atoms [] s i = Some i"
| "match_atoms (WordBoundary # as) s i =
     (if word_boundary s i then match_atoms as s i else None)"
| "match_atoms (Literal c # as) s i =
     (if i < length s \<and> lower (s ! i) = lower c then match_atoms as s (Suc i) else None)"

text \<open>The pattern can match the part of the text from position \<open>i\<close> up to position \<open>j\<close>.\<close>

definition regex_matches :: "re_atom list list \<Rightarrow> string \<Rightarrow> nat \<Rightarrow> nat \<Rightarrow> bool" where
  "regex_matches alternatives s i j = (\<exists>a \<in> set alternatives. match_atoms a s i = Some j)"

text \<open>
  A case-insensitive occurrence of an element in a text, from \<open>i\<close> up to \<open>j\<close>, with a word
  boundary on either side.
\<close>

definition occurrence :: "string \<Rightarrow> string \<Rightarrow> nat \<Rightarrow> nat \<Rightarrow> bool" where
  "occurrence e s i j =
     (j = i + length e \<and> j \<le> length s \<and>
      map lower (take (length e) (drop i s)) = map lower e \<and>
      word_boundary s i \<and> word_boundary s j)"

text \<open>The alternative an element stands for: the element's characters between two word
  boundaries.\<close>

definition element_alternative :: "string \<Rightarrow> re_atom list" where
  "element_alternative e = WordBoundary # map Literal e @ [WordBoundary]"

section \<open>Example fingerprints\<close>

text \<open>
  \<open>fp_without_nlu\<close> is the fingerprint \<^verbatim>\<open>model_fingerprint\<close> builds for a project with no
  NLU configuration and no NLU data: \<^verbatim>\<open>nlu-config\<close> is the empty string
  (\<^verbatim>\<open>... if len(nlu_config) else ""\<close>) and \<^verbatim>\<open>messages\<close> the empty dict.  \<open>fp_with_en\<close> is the
  fingerprint of the same project after the language \<^verbatim>\<open>en\<close> has been added.
\<close>

definition fp_old_en :: Fingerprint where
  "fp_old_en = fmap_of_list
     [(''config'', PStr ''c1''),
      (''nlu-config'', PDict (fmap_of_list [(''en'', PStr ''h1'')])),
      (''messages'', PDict (fmap_of_list [(''en'', PInt 11)])),
      (''version'', PStr ''1.10.2'')]"

definition fp_new_fr :: Fingerprint where
  "fp_new_fr = fmap_of_list
     [(''config'', PStr ''c2''),
      (''nlu-config'', PDict (fmap_of_list [(''fr'', PStr ''h2'')])),
      (''messages'', PDict (fmap_of_list [(''fr'', PInt 12)])),
      (''version'', PStr ''1.10.2'')]"

definition fp_en_de :: Fingerprint where
  "fp_en_de = fmap_of_list
     [(''config'', PStr ''c1''),
      (''nlu-config'', PDict (fmap_of_list [(''en'', PStr ''h1''), (''de'', PStr ''h3'')])),
      (''messages'', PDict (fmap_of_list [(''en'', PInt 11), (''de'', PInt 13)])),
      (''version'', PStr ''1.10.2'')]"

definition fp_en_fr :: Fingerprint where
  "fp_en_fr = fmap_of_list
     [(''config'', PStr ''c1''),
      (''nlu-config'', PDict (fmap_of_list [(''en'', PStr ''h1''), (''fr'', PStr ''h2'')])),
      (''messages'', PDict (fmap_of_list [(''en'', PInt 11), (''fr'', PInt 12)])),
      (''version'', PStr ''1.10.2'')]"

definition fp_without_nlu :: Fingerprint where
  "fp_without_nlu = fmap_of_list
     [(''config'', PStr ''c1''),
      (''core-config'', PStr ''c3''),
      (''nlu-config'', PStr []),
      (''domain'', PStr ''d1''),
      (''nlg'', PStr ''n1''),
      (''messages'', PDict (fmap_of_list [])),
      (''stories'', PInt 7),
      (''version'', PStr ''1.10.2'')]"

definition fp_with_en :: Fingerprint where
  "fp_with_en = fmap_of_list
     [(''config'', PStr ''c1''),
      (''core-config'', PStr ''c3''),
      (''nlu-config'', PDict (fmap_of_list [(''en'', PStr ''h1'')])),
      (''domain'', PStr ''d1''),
      (''nlg'', PStr ''n1''),
      (''messages'', PDict (fmap_of_list [(''en'', PInt 11)])),
      (''stories'', PInt 7),
      (''version'', PStr ''1.10.2'')]"

section \<open>Example messages and featurizers\<close>

text \<open>
  The message \<^verbatim>\<open>"New York"\<close> with the tokens \<^verbatim>\<open>New\<close> (span 0 to 3) and \<^verbatim>\<open>York\<close> (span
  4 to 8).  \<open>example_finditer\<close> gives the matches Python finds in that text for the patterns
  used below: \<^verbatim>\<open>New\<close> matches at (0, 3), \<^verbatim>\<open>w Yo\<close> at (2, 6), \<^verbatim>\<open>Paris\<close> nowhere.
\<close>

definition example_finditer :: finditer where
  "example_finditer pattern mtext =
     (if mtext = ''New York'' \<and> pattern = ''New'' then Inr [(0, 3)]
      else if mtext = ''New York'' \<and> pattern = ''w Yo'' then Inr [(2, 6)]
      else Inr [])"

definition example_TOKENS_NAMES :: "(string, string) fmap" where
  "example_TOKENS_NAMES = fmap_of_list [(''text'', ''tokens''), (''response'', ''response_tokens'')]"

definition token_new :: Token where
  "token_new = \<lparr> tok_text = ''New'', offset = 0, tok_end = 3, tok_pattern = fmempty \<rparr>"

definition token_york :: Token where
  "token_york = \<lparr> tok_text = ''York'', offset = 4, tok_end = 8, tok_pattern = fmempty \<rparr>"

definition message_new_york :: Message where
  "message_new_york = \<lparr> msg_text = ''New York'',
      tokens = fmap_of_list [(''tokens'', [token_new, token_york])] \<rparr>"

definition featurizer_same_name :: RegexFeaturizer where
  "featurizer_same_name = \<lparr> known_patterns =
      [\<lparr> kp_name = ''city'', kp_pattern = ''New'' \<rparr>, \<lparr> kp_name = ''city'', kp_pattern = ''Paris'' \<rparr>],
     return_sequence = False \<rparr>"

definition featurizer_span :: RegexFeaturizer where
  "featurizer_span = \<lparr> known_patterns =
      [\<lparr> kp_name = ''span'', kp_pattern = ''w Yo'' \<rparr>, \<lparr> kp_name = ''city'', kp_pattern = ''Paris'' \<rparr>],
     return_sequence = True \<rparr>"

section \<open>Example runtime and old models\<close>

text \<open>
  A runtime for the examples.  Its \<^verbatim>\<open>shutil.move\<close> raises \<^verbatim>\<open>TypeError\<close> on the source
  \<^verbatim>\<open>None\<close>, raises when the source is missing or the target exists, and renames the tree
  otherwise.  Its JSON reader and writers know the three texts used below (the file written
  for the patterns is given on one line), and only the version \<^verbatim>\<open>0.9.0\<close> is older than the
  minimum compatible version.

  \<open>fs_outdated_model\<close> holds an archive of an outdated model whose fingerprint lists the
  language \<^verbatim>\<open>en\<close> and which has a Core directory and no NLU directory.
  \<open>fs_model_without_core\<close> holds an archive of a current model with an NLU directory for
  \<^verbatim>\<open>en\<close>, none for \<^verbatim>\<open>de\<close>, and no Core directory.
\<close>

definition example_shutil_move ::
  "path option \<Rightarrow> path \<Rightarrow> filesystem \<Rightarrow> (pyerr + unit) \<times> filesystem" where
  "example_shutil_move source target fs =
     (case source of
        None \<Rightarrow> (Inl TypeError, fs)
      | Some src \<Rightarrow>
          if \<not> path_exists fs src \<or> path_exists fs target then (Inl OSError, fs)
          else (Inr (),
                map (\<lambda>(p, n). if under src p then (target @ drop (length src) p, n) else (p, n)) fs))"

definition fp_outdated_en :: Fingerprint where
  "fp_outdated_en = fmap_of_list
     [(''config'', PStr ''c1''),
      (''nlu-config'', PDict (fmap_of_list [(''en'', PStr ''h1'')])),
      (''messages'', PDict (fmap_of_list [(''en'', PInt 11)])),
      (''version'', PStr ''0.9.0'')]"

definition fingerprint_text_outdated_en :: string where
  \<open>fingerprint_text_outdated_en =
     ''{"config": "c1", "nlu-config": {"en": "h1"}, "messages": {"en": 11}, "version": "0.9.0"}''\<close>

definition fingerprint_text_en_de :: string where
  \<open>fingerprint_text_en_de =
     ''{"config": "c1", "nlu-config": {"en": "h1", "de": "h3"}, "messages": {"en": 11, "de": 13}, "version": "1.10.2"}''\<close>

definition patterns_text_span :: string where
  \<open>patterns_text_span =
     ''[{"name": "span", "pattern": "w Yo"}, {"name": "city", "pattern": "Paris"}]''\<close>

definition example_json_loads :: "string \<Rightarrow> pyerr + pyval" where
  "example_json_loads content =
     (if content = fingerprint_text_outdated_en then Inr (PDict fp_outdated_en)
      else if content = fingerprint_text_en_de then Inr (PDict fp_en_de)
      else if content = patterns_text_span
      then Inr (py_of_patterns (known_patterns featurizer_span))
      else Inl ValueError)"

definition example_runtime :: runtime where
  "example_runtime =
     \<lparr> json_loads = example_json_loads,
       dump_obj_as_json =
         (\<lambda>v. if v = PDict fp_outdated_en then fingerprint_text_outdated_en
              else if v = PDict fp_en_de then fingerprint_text_en_de
              else []),
       json_dumps_indent =
         (\<lambda>indent v. if v = py_of_patterns (known_patterns featurizer_span)
                     then patterns_text_span else []),
       shutil_move = example_shutil_move,
       mkdtemp = [''tmp'', ''tmpab12''],
       version_outdated =
         (\<lambda>v. case v of PStr s \<Rightarrow> Inr (s = ''0.9.0'') | _ \<Rightarrow> Inl TypeError) \<rparr>"

definition fs_outdated_model :: filesystem where
  "fs_outdated_model =
     [([''models''], Dir),
      ([''models'', ''old.tar.gz''],
         TarGz [([''fingerprint.json''],
                   File fingerprint_text_outdated_en),
                ([''core''], Dir)]),
      ([''train''], Dir)]"

definition fs_model_without_core :: filesystem where
  "fs_model_without_core =
     [([''models''], Dir),
      ([''models'', ''old.tar.gz''],
         TarGz [([''fingerprint.json''],
                   File fingerprint_text_en_de),
                ([''nlu-en''], Dir),
                ([''nlu-en'', ''model.bin''], File ''weights'')]),
      ([''train''], Dir)]"

section \<open>Example training directory\<close>

text \<open>A training directory with Core artifacts and an NLU directory, before packaging.\<close>

definition fs_training :: filesystem where
  "fs_training =
     [([''train''], Dir),
      ([''train'', ''core''], Dir),
      ([''train'', ''core'', ''policy.bin''], File ''weights''),
      ([''train'', ''nlu-en''], Dir)]"

section \<open>Example lookup tables\<close>

definition table_nyc :: LookupTable where
  "table_nyc = \<lparr> table_name = ''city'', elements = ElementList [''NYC''] \<rparr>"

definition table_empty :: LookupTable where
  "table_empty = \<lparr> table_name = ''city'', elements = ElementList [] \<rparr>"

section \<open>Properties of the fingerprint comparator\<close>

lemma set_dict_keys: "set (dict_keys d) = fmdom' d"
  by (simp add: dict_keys_def fmdom'_alt_def)

lemma set_list_of_set: "finite s \<Longrightarrow> set (list_of_set s) = s"
  by (simp add: list_of_set_def)

lemma add_languages_eq: "add_languages ls s = set ls \<union> s"
  by (induction ls arbitrary: s) auto

lemma remove_languages_eq: "remove_languages ls s = s - set ls"
  by (induction ls arbitrary: s) auto

lemma compare_languages_finite:
  "compare_languages d1 v2 ls s = Inr s' \<Longrightarrow> finite s \<Longrightarrow> finite s'"
  by (induction ls arbitrary: s) (auto split: sum.splits if_splits)

lemma compare_languages_dict:
  "\<exists>s'. compare_languages d1 (PDict d2) ls s = Inr s'"
  by (induction ls arbitrary: s) auto

lemma compare_languages_same:
  "compare_languages d1 (PDict d1) ls s = Inr s"
  by (induction ls arbitrary: s) auto

lemma nlu_keys_loop_result:
  assumes "nlu_keys_loop fp1 fp2 alls added removed ks acc = Inr c" "finite acc" "finite alls"
  shows "(if global_mismatch fp1 fp2 ks then c = Langs (list_of_set alls)
          else \<exists>acc'. finite acc' \<and> c = Langs (list_of_set ((set added \<union> acc') - set removed)))"
  using assms
proof (induction ks arbitrary: acc)
  case Nil
  then show ?case
    by (auto simp: global_mismatch_def add_languages_eq remove_languages_eq)
next
  case (Cons k ks)
  show ?case
  proof (cases "dict_get fp1 k")
    case (PDict d1)
    with Cons.prems obtain acc' where
      a: "compare_languages d1 (dict_get fp2 k) (dict_keys d1) acc = Inr acc'"
      and b: "nlu_keys_loop fp1 fp2 alls added removed ks acc' = Inr c"
      by (auto split: sum.splits)
    have "finite acc'" using compare_languages_finite[OF a] Cons.prems by simp
    from Cons.IH[OF b this Cons.prems(3)] PDict show ?thesis
      by (simp add: global_mismatch_def)
  next
    case PNone
    with Cons.prems Cons.IH[of acc] show ?thesis
      by (auto simp: global_mismatch_def split: if_splits)
  next
    case (PStr s)
    with Cons.prems Cons.IH[of acc] show ?thesis
      by (auto simp: global_mismatch_def split: if_splits)
  next
    case (PInt i)
    with Cons.prems Cons.IH[of acc] show ?thesis
      by (auto simp: global_mismatch_def split: if_splits)
  next
    case (PList l)
    with Cons.prems Cons.IH[of acc] show ?thesis
      by (auto simp: global_mismatch_def split: if_splits)
  qed
qed

lemma nlu_keys_loop_returns:
  assumes "\<forall>k \<in> set ks. isinstance_dict (dict_get fp1 k) \<longrightarrow> isinstance_dict (dict_get fp2 k)"
  shows "\<exists>c. nlu_keys_loop fp1 fp2 alls added removed ks acc = Inr c"
  using assms
proof (induction ks arbitrary: acc)
  case Nil
  then show ?case by simp
next
  case (Cons k ks)
  show ?case
  proof (cases "dict_get fp1 k")
    case (PDict d1)
    with Cons.prems obtain d2 where d2: "dict_get fp2 k = PDict d2"
      by (cases "dict_get fp2 k") auto
    obtain acc' where "compare_languages d1 (PDict d2) (dict_keys d1) acc = Inr acc'"
      using compare_languages_dict by blast
    with PDict d2 Cons.IH[of acc'] Cons.prems show ?thesis by auto
  qed (use Cons.IH[of acc] Cons.prems in auto)
qed

text \<open>
  Claim C1, amended.  Whenever the NLU comparison returns, a language that is among the new
  fingerprint's NLU data or NLU config keys and not among the old fingerprint's is in the
  returned list.  A language that is only among the old fingerprint's keys is in the returned
  list exactly when some relevant key whose old value is not a dict differs between the two
  fingerprints (the early return of all languages); without such a difference it is never
  returned.
\<close>

theorem nlu_added_included_removed_excluded:
  assumes "did_section_fingerprint_change fp1 fp2 SECTION_NLU = Inr (Langs result)"
    and "fingerprint_languages fp1 = Inr old_langs"
    and "fingerprint_languages fp2 = Inr new_langs"
  shows "(lang \<in> set new_langs \<and> lang \<notin> set old_langs \<longrightarrow> lang \<in> set result) \<and>
         (lang \<in> set old_langs \<and> lang \<notin> set new_langs \<longrightarrow>
            (lang \<in> set result \<longleftrightarrow> global_mismatch fp1 fp2 (relevant_keys SECTION_NLU)))"
proof -
  let ?added = "list_of_set (set new_langs - set old_langs)"
  let ?removed = "list_of_set (set old_langs - set new_langs)"
  have loop: "nlu_keys_loop fp1 fp2 (set (old_langs @ new_langs)) ?added ?removed
                (relevant_keys SECTION_NLU) {} = Inr (Langs result)"
    using assms by (simp add: did_section_fingerprint_change_def SECTION_NLU_def Let_def)
  have added: "set ?added = set new_langs - set old_langs"
    and removed: "set ?removed = set old_langs - set new_langs"
    by (simp_all add: set_list_of_set)
  show ?thesis
  proof (cases "global_mismatch fp1 fp2 (relevant_keys SECTION_NLU)")
    case True
    with nlu_keys_loop_result[OF loop] have "result = list_of_set (set (old_langs @ new_langs))"
      by simp
    then have "set result = set old_langs \<union> set new_langs"
      by (simp add: set_list_of_set)
    with True show ?thesis by auto
  next
    case False
    with nlu_keys_loop_result[OF loop] obtain acc' where
      "finite acc'" "result = list_of_set ((set ?added \<union> acc') - set ?removed)"
      by auto
    then have "set result = (set ?added \<union> acc') - set ?removed"
      by (simp add: set_list_of_set)
    with False added removed show ?thesis by auto
  qed
qed

text \<open>
  The theorem at two fingerprints that share \<^verbatim>\<open>en\<close>, where \<^verbatim>\<open>de\<close> is dropped and \<^verbatim>\<open>fr\<close> is
  added and nothing else differs: \<^verbatim>\<open>fr\<close> is returned, \<^verbatim>\<open>de\<close> is not.
\<close>

theorem nlu_added_included_removed_excluded_witness:
  "did_section_fingerprint_change fp_en_de fp_en_fr SECTION_NLU = Inr (Langs [''fr'']) \<and>
   fingerprint_languages fp_en_de = Inr [''de'', ''en'', ''de'', ''en''] \<and>
   fingerprint_languages fp_en_fr = Inr [''en'', ''fr'', ''en'', ''fr''] \<and>
   ''fr'' \<in> set [''fr''] \<and> ''de'' \<notin> set [''fr''] \<and>
   \<not> global_mismatch fp_en_de fp_en_fr (relevant_keys SECTION_NLU)"
proof -
  have r: "did_section_fingerprint_change fp_en_de fp_en_fr SECTION_NLU = Inr (Langs [''fr''])"
    by code_simp
  have o: "fingerprint_languages fp_en_de = Inr [''de'', ''en'', ''de'', ''en'']"
    by code_simp
  have n: "fingerprint_languages fp_en_fr = Inr [''en'', ''fr'', ''en'', ''fr'']"
    by code_simp
  from nlu_added_included_removed_excluded[OF r o n, of "''fr''"]
       nlu_added_included_removed_excluded[OF r o n, of "''de''"]
  show ?thesis using r o n by simp
qed

text \<open>
  Claim C1 as stated fails: \<^verbatim>\<open>en\<close> appears only in the old fingerprint, \<^verbatim>\<open>config\<close> differs,
  and the returned list holds \<^verbatim>\<open>en\<close>.
\<close>

theorem removed_language_returned_on_global_mismatch:
  "fingerprint_languages fp_old_en = Inr [''en'', ''en''] \<and>
   fingerprint_languages fp_new_fr = Inr [''fr'', ''fr''] \<and>
   did_section_fingerprint_change fp_old_en fp_new_fr SECTION_NLU = Inr (Langs [''en'', ''fr''])"
  by code_simp

text \<open>
  Claim C4 at a failing input.  The relevant key \<^verbatim>\<open>nlu-config\<close> holds the empty string in the
  old fingerprint, which is not a dict, and a dict with the language \<^verbatim>\<open>en\<close> in the new one,
  so a relevant key whose old value is not a dict has different values.  The NLU comparison
  does not return the languages of the two fingerprints: it raises \<^verbatim>\<open>AttributeError\<close> on
  \<^verbatim>\<open>"".keys()\<close> while the set of all languages is built, before the loop over the relevant
  keys is reached.
\<close>

theorem non_dict_nlu_config_mismatch_raises:
  "dict_get fp_without_nlu FINGERPRINT_CONFIG_NLU_KEY = PStr [] \<and>
   \<not> isinstance_dict (dict_get fp_without_nlu FINGERPRINT_CONFIG_NLU_KEY) \<and>
   dict_get fp_with_en FINGERPRINT_CONFIG_NLU_KEY = PDict (fmap_of_list [(''en'', PStr ''h1'')]) \<and>
   global_mismatch fp_without_nlu fp_with_en (relevant_keys SECTION_NLU) \<and>
   did_section_fingerprint_change fp_without_nlu fp_with_en SECTION_NLU = Inl AttributeError"
  by code_simp

text \<open>
  What holds of the early return.  Let the NLU data and NLU config of both fingerprints be
  dicts and let the new fingerprint hold a dict wherever the old one does.  If some relevant
  key whose old value is not a dict has different values in the two fingerprints, the NLU
  comparison returns a list whose elements are exactly the languages among the NLU data or
  NLU config keys of either fingerprint.
\<close>

lemma nlu_global_mismatch_returns_all_languages:
  assumes "fingerprint_languages fp1 = Inr old_langs"
    and "fingerprint_languages fp2 = Inr new_langs"
    and "global_mismatch fp1 fp2 (relevant_keys SECTION_NLU)"
    and "\<forall>k \<in> set (relevant_keys SECTION_NLU).
           isinstance_dict (dict_get fp1 k) \<longrightarrow> isinstance_dict (dict_get fp2 k)"
  shows "\<exists>result. did_section_fingerprint_change fp1 fp2 SECTION_NLU = Inr (Langs result) \<and>
           set result = set old_langs \<union> set new_langs"
proof -
  let ?added = "list_of_set (set new_langs - set old_langs)"
  let ?removed = "list_of_set (set old_langs - set new_langs)"
  let ?loop = "nlu_keys_loop fp1 fp2 (set (old_langs @ new_langs)) ?added ?removed
                (relevant_keys SECTION_NLU) {}"
  have eq: "did_section_fingerprint_change fp1 fp2 SECTION_NLU = ?loop"
    using assms(1,2) by (simp add: did_section_fingerprint_change_def SECTION_NLU_def Let_def)
  obtain c where c: "?loop = Inr c"
    using nlu_keys_loop_returns[OF assms(4)] by blast
  from nlu_keys_loop_result[OF c] assms(3)
  have "c = Langs (list_of_set (set (old_langs @ new_langs)))" by simp
  with eq c show ?thesis by (simp add: set_list_of_set)
qed

text \<open>The lemma at two fingerprints whose \<^verbatim>\<open>config\<close> values differ.\<close>

lemma nlu_global_mismatch_returns_all_languages_example:
  "fingerprint_languages fp_old_en = Inr [''en'', ''en''] \<and>
   fingerprint_languages fp_new_fr = Inr [''fr'', ''fr''] \<and>
   dict_get fp_old_en FINGERPRINT_CONFIG_KEY = PStr ''c1'' \<and>
   dict_get fp_new_fr FINGERPRINT_CONFIG_KEY = PStr ''c2'' \<and>
   (\<exists>result. did_section_fingerprint_change fp_old_en fp_new_fr SECTION_NLU = Inr (Langs result) \<and>
      set result = {''en'', ''fr''})"
proof -
  have o: "fingerprint_languages fp_old_en = Inr [''en'', ''en'']" by code_simp
  have n: "fingerprint_languages fp_new_fr = Inr [''fr'', ''fr'']" by code_simp
  have c1: "dict_get fp_old_en FINGERPRINT_CONFIG_KEY = PStr ''c1''" by code_simp
  have c2: "dict_get fp_new_fr FINGERPRINT_CONFIG_KEY = PStr ''c2''" by code_simp
  have m: "global_mismatch fp_old_en fp_new_fr (relevant_keys SECTION_NLU)"
    by code_simp
  have t: "\<forall>k \<in> set (relevant_keys SECTION_NLU).
           isinstance_dict (dict_get fp_old_en k) \<longrightarrow> isinstance_dict (dict_get fp_new_fr k)"
    by code_simp
  from nlu_global_mismatch_returns_all_languages[OF o n m t] o n c1 c2
  show ?thesis by auto
qed

text \<open>
  Claim C2 at a failing input.  The two fingerprints are the same, so every relevant key of
  the NLU section has equal values, yet the NLU comparison does not return an empty list: it
  raises \<^verbatim>\<open>AttributeError\<close>, because \<^verbatim>\<open>nlu-config\<close> is the empty string, which has no
  \<^verbatim>\<open>keys\<close>.
\<close>

theorem equal_fingerprints_without_nlu_config_raise:
  "did_section_fingerprint_change fp_without_nlu fp_without_nlu SECTION_NLU = Inl AttributeError"
  by code_simp

text \<open>
  What does hold of unchanged sections: a section other than the NLU one always reports
  \<^verbatim>\<open>False\<close>, and the NLU section reports the empty list whenever the NLU data and NLU config
  of the old fingerprint are dicts.
\<close>

lemma keys_differ_equal:
  "\<forall>k \<in> set ks. dict_get fp1 k = dict_get fp2 k \<Longrightarrow> \<not> keys_differ fp1 fp2 ks"
  by (induction ks) auto

lemma nlu_keys_loop_equal:
  assumes "\<forall>k \<in> set ks. dict_get fp1 k = dict_get fp2 k"
  shows "nlu_keys_loop fp1 fp2 alls added removed ks acc =
         Inr (Langs (list_of_set (remove_languages removed (add_languages added acc))))"
  using assms
proof (induction ks arbitrary: acc)
  case Nil then show ?case by simp
next
  case (Cons k ks)
  then have e: "dict_get fp1 k = dict_get fp2 k" by simp
  from Cons show ?case
    unfolding nlu_keys_loop.simps e
    by (cases "dict_get fp2 k") (simp_all add: compare_languages_same)
qed

lemma unchanged_section_no_retraining:
  assumes "\<forall>k \<in> set (relevant_keys section). dict_get fp1 k = dict_get fp2 k"
  shows "name section \<noteq> ''NLU model'' \<Longrightarrow>
           did_section_fingerprint_change fp1 fp2 section = Inr (Flag False)"
    and "section = SECTION_NLU \<Longrightarrow> fingerprint_languages fp1 = Inr langs \<Longrightarrow>
           did_section_fingerprint_change fp1 fp2 section = Inr (Langs [])"
proof -
  show "name section \<noteq> ''NLU model'' \<Longrightarrow>
           did_section_fingerprint_change fp1 fp2 section = Inr (Flag False)"
    using keys_differ_equal[OF assms] by (simp add: did_section_fingerprint_change_def)
next
  assume s: "section = SECTION_NLU" and l: "fingerprint_languages fp1 = Inr langs"
  have "dict_get fp1 FINGERPRINT_NLU_DATA_KEY = dict_get fp2 FINGERPRINT_NLU_DATA_KEY"
       "dict_get fp1 FINGERPRINT_CONFIG_NLU_KEY = dict_get fp2 FINGERPRINT_CONFIG_NLU_KEY"
    using assms s by (simp_all add: SECTION_NLU_def)
  then have "fingerprint_languages fp2 = fingerprint_languages fp1"
    unfolding fingerprint_languages_def by (simp only:)
  then have l2: "fingerprint_languages fp2 = Inr langs"
    using l by simp
  show "did_section_fingerprint_change fp1 fp2 section = Inr (Langs [])"
    using l l2 s nlu_keys_loop_equal[OF assms]
    by (simp add: did_section_fingerprint_change_def SECTION_NLU_def Let_def list_of_set_def
        add_languages_eq remove_languages_eq)
qed

section \<open>Properties of \<^verbatim>\<open>_features_for_patterns\<close>\<close>

lemma hit_Nil [simp]: "\<not> hit t []" by (simp add: hit_def)

lemma hit_Cons: "hit t (m # ms) \<longleftrightarrow> overlaps t m \<or> hit t ms" by (auto simp: hit_def)

lemma wf_np_zeros: "wf_vec (np_zeros r c)"
  by (simp add: wf_vec_def np_zeros_def)

lemma cell_np_zeros: "r < n \<Longrightarrow> c < k \<Longrightarrow> cell (np_zeros n k) r c = 0"
  by (simp add: cell_def np_zeros_def)

lemma set_item_ok:
  assumes "wf_vec v" "i < fst (shape v)" "j < snd (shape v)"
  shows "\<exists>v'. set_item v i j x = Inr v' \<and> wf_vec v' \<and> shape v' = shape v \<and>
           (\<forall>r c. r < fst (shape v) \<longrightarrow> c < snd (shape v) \<longrightarrow>
                cell v' r c = (if r = i \<and> c = j then x else cell v r c))"
proof -
  let ?v' = "v \<lparr> cells := (cells v)[i := (cells v ! i)[j := x]] \<rparr>"
  have 1: "set_item v i j x = Inr ?v'" using assms by (simp add: set_item_def)
  have 2: "wf_vec ?v'" using assms
    by (auto simp: wf_vec_def nth_list_update)
  have 3: "\<forall>r c. r < fst (shape v) \<longrightarrow> c < snd (shape v) \<longrightarrow>
                cell ?v' r c = (if r = i \<and> c = j then x else cell v r c)"
    using assms by (auto simp: cell_def wf_vec_def nth_list_update)
  from 1 2 3 show ?thesis by auto
qed

lemma match_loop_result:
  assumes "wf_vec v" "si < fst (shape v)" "pj < snd (shape v)"
  shows "\<exists>v'. match_loop t nm si pj ms pats v =
           Inr (if hit t ms then fmupd nm True pats else pats, v') \<and>
           same_but v v' (\<lambda>r c. hit t ms \<and> r = si \<and> c = pj)"
  using assms
proof (induction ms arbitrary: pats v)
  case Nil
  then show ?case by (simp add: same_but_def)
next
  case (Cons m ms)
  show ?case
  proof (cases "overlaps t m")
    case False
    then have "match_loop t nm si pj (m # ms) pats v = match_loop t nm si pj ms pats v"
      by (auto simp: overlaps_def)
    with Cons.IH[OF Cons.prems, of pats] False show ?thesis
      by (simp add: hit_Cons)
  next
    case True
    from set_item_ok[OF Cons.prems, of 1] obtain v1 where
      v1: "set_item v si pj 1 = Inr v1" "wf_vec v1" "shape v1 = shape v"
        "\<forall>r c. r < fst (shape v) \<longrightarrow> c < snd (shape v) \<longrightarrow>
                cell v1 r c = (if r = si \<and> c = pj then 1 else cell v r c)"
      by blast
    have step: "match_loop t nm si pj (m # ms) pats v =
                match_loop t nm si pj ms (fmupd nm True pats) v1"
      using True v1(1) by (simp add: overlaps_def)
    from Cons.IH[of v1 "fmupd nm True pats"] v1 Cons.prems obtain v' where
      v': "match_loop t nm si pj ms (fmupd nm True pats) v1 =
             Inr (if hit t ms then fmupd nm True (fmupd nm True pats) else fmupd nm True pats, v')"
          "same_but v1 v' (\<lambda>r c. hit t ms \<and> r = si \<and> c = pj)"
      by auto
    have "same_but v v' (\<lambda>r c. hit t (m # ms) \<and> r = si \<and> c = pj)"
      using v'(2) v1 True unfolding same_but_def hit_Cons by auto
    with step v'(1) True show ?thesis
      by (auto simp: hit_Cons)
  qed
qed

lemma same_but_trans:
  assumes "same_but v v1 P" "same_but v1 v2 Q"
  shows "same_but v v2 (\<lambda>r c. P r c \<or> Q r c)"
  using assms unfolding same_but_def by auto

lemma same_but_cong:
  assumes "same_but v v' P"
    and "\<And>r c. r < fst (shape v) \<Longrightarrow> c < snd (shape v) \<Longrightarrow> P r c = Q r c"
  shows "same_but v v' Q"
  using assms unfolding same_but_def by auto

lemma same_but_shape: "same_but v v' P \<Longrightarrow> shape v' = shape v \<and> wf_vec v'"
  by (simp add: same_but_def)

lemma token_loop_result:
  assumes "wf_vec v" "pj < snd (shape v)"
    and "if rs then ti + length ts \<le> fst (shape v) else 0 < fst (shape v)"
  shows "\<exists>v'. token_loop rs nm pj ms ti ts v = Inr (map (mark nm ms) ts, v') \<and>
           same_but v v' (\<lambda>r c. c = pj \<and>
              (\<exists>k < length ts. hit (ts ! k) ms \<and> r = (if rs then ti + k else 0)))"
  using assms
proof (induction ts arbitrary: ti v)
  case Nil
  then show ?case by (simp add: same_but_def)
next
  case (Cons t ts)
  let ?si = "if rs then ti else 0"
  have si: "?si < fst (shape v)" using Cons.prems(3) by (auto split: if_splits)
  from match_loop_result[OF Cons.prems(1) si Cons.prems(2), of t nm ms "fmupd nm False (tok_pattern t)"]
  obtain v1 where
    v1: "match_loop t nm ?si pj ms (fmupd nm False (tok_pattern t)) v =
           Inr (if hit t ms then fmupd nm True (fmupd nm False (tok_pattern t))
                else fmupd nm False (tok_pattern t), v1)"
        "same_but v v1 (\<lambda>r c. hit t ms \<and> r = ?si \<and> c = pj)"
    by blast
  have pats: "(if hit t ms then fmupd nm True (fmupd nm False (tok_pattern t))
                else fmupd nm False (tok_pattern t)) = fmupd nm (hit t ms) (tok_pattern t)"
    by simp
  have sh: "shape v1 = shape v" "wf_vec v1" using same_but_shape[OF v1(2)] by simp_all
  have rows: "if rs then Suc ti + length ts \<le> fst (shape v1) else 0 < fst (shape v1)"
    using Cons.prems(3) sh by (auto split: if_splits)
  from Cons.IH[OF sh(2) _ rows] Cons.prems(2) sh obtain v2 where
    v2: "token_loop rs nm pj ms (Suc ti) ts v1 = Inr (map (mark nm ms) ts, v2)"
        "same_but v1 v2 (\<lambda>r c. c = pj \<and>
              (\<exists>k < length ts. hit (ts ! k) ms \<and> r = (if rs then Suc ti + k else 0)))"
    by auto
  have res: "token_loop rs nm pj ms ti (t # ts) v = Inr (map (mark nm ms) (t # ts), v2)"
    using v1(1) v2(1) unfolding pats by (simp add: Let_def mark_def)
  have "same_but v v2 (\<lambda>r c. (hit t ms \<and> r = ?si \<and> c = pj) \<or> (c = pj \<and>
              (\<exists>k < length ts. hit (ts ! k) ms \<and> r = (if rs then Suc ti + k else 0))))"
    by (rule same_but_trans[OF v1(2) v2(2)])
  then have "same_but v v2 (\<lambda>r c. c = pj \<and>
              (\<exists>k < length (t # ts). hit ((t # ts) ! k) ms \<and> r = (if rs then ti + k else 0)))"
  proof (rule same_but_cong)
    fix r c
    show "((hit t ms \<and> r = ?si \<and> c = pj) \<or> (c = pj \<and>
              (\<exists>k < length ts. hit (ts ! k) ms \<and> r = (if rs then Suc ti + k else 0)))) =
          (c = pj \<and> (\<exists>k < length (t # ts). hit ((t # ts) ! k) ms \<and> r = (if rs then ti + k else 0)))"
      (is "?L = ?R")
    proof
      assume ?L
      then show ?R
      proof
        assume "hit t ms \<and> r = ?si \<and> c = pj"
        then show ?R by (intro conjI exI[of _ 0]) auto
      next
        assume "c = pj \<and> (\<exists>k < length ts. hit (ts ! k) ms \<and> r = (if rs then Suc ti + k else 0))"
        then obtain k where "c = pj" "k < length ts" "hit (ts ! k) ms" "r = (if rs then Suc ti + k else 0)"
          by blast
        then show ?R by (intro conjI exI[of _ "Suc k"]) auto
      qed
    next
      assume ?R
      then obtain k where k: "c = pj" "k < length (t # ts)" "hit ((t # ts) ! k) ms"
        "r = (if rs then ti + k else 0)" by blast
      show ?L
      proof (cases k)
        case 0
        with k show ?thesis by auto
      next
        case (Suc k')
        with k show ?thesis by auto
      qed
    qed
  qed
  with res show ?case by blast
qed

lemma hit_mark [simp]: "hit (mark nm ms t) ms' = hit t ms'"
  by (simp add: hit_def mark_def overlaps_def)

lemma pattern_loop_result:
  assumes "pattern_loop fi rs mtext pj ps toks v = Inr (toks', v')"
    and "wf_vec v" "pj + length ps \<le> snd (shape v)"
    and "if rs then length toks \<le> fst (shape v) else 0 < fst (shape v)"
  shows "toks' = map (apply_marks fi mtext ps) toks \<and>
         (\<forall>p \<in> set ps. \<exists>ms. fi (kp_pattern p) mtext = Inr ms) \<and>
         same_but v v' (\<lambda>r c. pj \<le> c \<and> c < pj + length ps \<and>
            (\<exists>k < length toks. hit (toks ! k) (matches_of fi (ps ! (c - pj)) mtext) \<and>
                r = (if rs then k else 0)))"
  using assms
proof (induction ps arbitrary: pj toks v)
  case Nil
  then show ?case by (auto simp: same_but_def)
next
  case (Cons p ps)
  from Cons.prems(1) obtain ms where ms: "fi (kp_pattern p) mtext = Inr ms"
    by (auto split: sum.splits)
  then have mo: "matches_of fi p mtext = ms" by (simp add: matches_of_def)
  have pj: "pj < snd (shape v)" using Cons.prems(3) by simp
  have rows0: "if rs then 0 + length toks \<le> fst (shape v) else 0 < fst (shape v)"
    using Cons.prems(4) by simp
  from token_loop_result[OF Cons.prems(2) pj rows0, of "kp_name p" ms] obtain v1 where
    v1: "token_loop rs (kp_name p) pj ms 0 toks v = Inr (map (mark (kp_name p) ms) toks, v1)"
        "same_but v v1 (\<lambda>r c. c = pj \<and>
              (\<exists>k < length toks. hit (toks ! k) ms \<and> r = (if rs then 0 + k else 0)))"
    by blast
  let ?toks1 = "map (mark (kp_name p) ms) toks"
  have rest: "pattern_loop fi rs mtext (Suc pj) ps ?toks1 v1 = Inr (toks', v')"
    using Cons.prems(1) ms v1(1) by simp
  have sh: "shape v1 = shape v" "wf_vec v1" using same_but_shape[OF v1(2)] by simp_all
  have c2: "Suc pj + length ps \<le> snd (shape v1)" using Cons.prems(3) sh by simp
  have c3: "if rs then length ?toks1 \<le> fst (shape v1) else 0 < fst (shape v1)"
    using Cons.prems(4) sh by simp
  from Cons.IH[OF rest sh(2) c2 c3] have
    ih1: "toks' = map (apply_marks fi mtext ps) ?toks1"
    and ih2: "\<forall>p \<in> set ps. \<exists>ms. fi (kp_pattern p) mtext = Inr ms"
    and ih3: "same_but v1 v' (\<lambda>r c. Suc pj \<le> c \<and> c < Suc pj + length ps \<and>
            (\<exists>k < length ?toks1. hit (?toks1 ! k) (matches_of fi (ps ! (c - Suc pj)) mtext) \<and>
                r = (if rs then k else 0)))"
    by simp_all
  have t: "toks' = map (apply_marks fi mtext (p # ps)) toks"
    using ih1 mo by simp
  have f: "\<forall>q \<in> set (p # ps). \<exists>ms. fi (kp_pattern q) mtext = Inr ms"
    using ih2 ms by auto
  have "same_but v v' (\<lambda>r c. (c = pj \<and>
              (\<exists>k < length toks. hit (toks ! k) ms \<and> r = (if rs then 0 + k else 0))) \<or>
            (Suc pj \<le> c \<and> c < Suc pj + length ps \<and>
            (\<exists>k < length ?toks1. hit (?toks1 ! k) (matches_of fi (ps ! (c - Suc pj)) mtext) \<and>
                r = (if rs then k else 0))))"
    by (rule same_but_trans[OF v1(2) ih3])
  then have "same_but v v' (\<lambda>r c. pj \<le> c \<and> c < pj + length (p # ps) \<and>
            (\<exists>k < length toks. hit (toks ! k) (matches_of fi ((p # ps) ! (c - pj)) mtext) \<and>
                r = (if rs then k else 0)))"
  proof (rule same_but_cong)
    fix r c
    show "((c = pj \<and>
              (\<exists>k < length toks. hit (toks ! k) ms \<and> r = (if rs then 0 + k else 0))) \<or>
            (Suc pj \<le> c \<and> c < Suc pj + length ps \<and>
            (\<exists>k < length ?toks1. hit (?toks1 ! k) (matches_of fi (ps ! (c - Suc pj)) mtext) \<and>
                r = (if rs then k else 0)))) =
          (pj \<le> c \<and> c < pj + length (p # ps) \<and>
            (\<exists>k < length toks. hit (toks ! k) (matches_of fi ((p # ps) ! (c - pj)) mtext) \<and>
                r = (if rs then k else 0)))"
    proof (cases "c = pj")
      case True
      then show ?thesis using mo by auto
    next
      case False
      have "Suc pj \<le> c \<Longrightarrow> (p # ps) ! (c - pj) = ps ! (c - Suc pj)"
        by (simp add: Suc_diff_le)
      with False show ?thesis by auto
    qed
  qed
  with t f show ?case by blast
qed

lemma pattern_loop_returns:
  assumes "\<forall>p \<in> set ps. \<exists>ms. fi (kp_pattern p) mtext = Inr ms"
    and "wf_vec v" "pj + length ps \<le> snd (shape v)"
    and "if rs then length toks \<le> fst (shape v) else 0 < fst (shape v)"
  shows "\<exists>toks' v'. pattern_loop fi rs mtext pj ps toks v = Inr (toks', v')"
  using assms
proof (induction ps arbitrary: pj toks v)
  case Nil
  then show ?case by simp
next
  case (Cons p ps)
  from Cons.prems(1) obtain ms where ms: "fi (kp_pattern p) mtext = Inr ms" by auto
  have pj: "pj < snd (shape v)" using Cons.prems(3) by simp
  have rows0: "if rs then 0 + length toks \<le> fst (shape v) else 0 < fst (shape v)"
    using Cons.prems(4) by simp
  from token_loop_result[OF Cons.prems(2) pj rows0, of "kp_name p" ms] obtain v1 where
    v1: "token_loop rs (kp_name p) pj ms 0 toks v = Inr (map (mark (kp_name p) ms) toks, v1)"
        "same_but v v1 (\<lambda>r c. c = pj \<and>
              (\<exists>k < length toks. hit (toks ! k) ms \<and> r = (if rs then 0 + k else 0)))"
    by blast
  let ?toks1 = "map (mark (kp_name p) ms) toks"
  have sh: "shape v1 = shape v" "wf_vec v1" using same_but_shape[OF v1(2)] by simp_all
  have c1: "\<forall>p \<in> set ps. \<exists>ms. fi (kp_pattern p) mtext = Inr ms" using Cons.prems(1) by simp
  have c2: "Suc pj + length ps \<le> snd (shape v1)" using Cons.prems(3) sh by simp
  have c3: "if rs then length ?toks1 \<le> fst (shape v1) else 0 < fst (shape v1)"
    using Cons.prems(4) sh by simp
  from Cons.IH[OF c1 sh(2) c2 c3] ms v1(1) show ?case by simp
qed

lemma apply_marks_hit [simp]: "hit (apply_marks fi mtext ps t) ms = hit t ms"
  by (induction ps arbitrary: t) simp_all

lemma apply_marks_other:
  "\<forall>p \<in> set ps. kp_name p \<noteq> nm \<Longrightarrow>
   fmlookup (tok_pattern (apply_marks fi mtext ps t)) nm = fmlookup (tok_pattern t) nm"
  by (induction ps arbitrary: t) (simp_all add: mark_def)

lemma apply_marks_lookup:
  assumes "j < length ps"
    and "\<forall>j'. j < j' \<and> j' < length ps \<longrightarrow> kp_name (ps ! j') \<noteq> kp_name (ps ! j)"
  shows "fmlookup (tok_pattern (apply_marks fi mtext ps t)) (kp_name (ps ! j)) =
         Some (hit t (matches_of fi (ps ! j) mtext))"
  using assms
proof (induction ps arbitrary: j t)
  case Nil
  then show ?case by simp
next
  case (Cons p ps)
  show ?case
  proof (cases j)
    case 0
    have "\<forall>q \<in> set ps. kp_name q \<noteq> kp_name p"
    proof
      fix q assume "q \<in> set ps"
      then obtain k where "k < length ps" "ps ! k = q" by (auto simp: in_set_conv_nth)
      with Cons.prems(2)[rule_format, of "Suc k"] 0 show "kp_name q \<noteq> kp_name p" by auto
    qed
    from apply_marks_other[OF this] 0 show ?thesis by (simp add: mark_def)
  next
    case (Suc i)
    have a: "i < length ps" using Cons.prems(1) Suc by simp
    have b: "\<forall>j'. i < j' \<and> j' < length ps \<longrightarrow> kp_name (ps ! j') \<noteq> kp_name (ps ! i)"
    proof (intro allI impI)
      fix j' assume "i < j' \<and> j' < length ps"
      with Cons.prems(2)[rule_format, of "Suc j'"] Suc
      show "kp_name (ps ! j') \<noteq> kp_name (ps ! i)" by auto
    qed
    from Cons.IH[OF a b] Suc show ?thesis by simp
  qed
qed

lemma coo_entries_iff:
  "(i, j, x) \<in> set (coo_entries (to_coo_matrix v)) \<longleftrightarrow>
     i < fst (shape v) \<and> j < snd (shape v) \<and> x = cell v i j \<and> x \<noteq> 0"
  by (auto simp: to_coo_matrix_def cell_def split: if_splits)

lemma features_for_patterns_unfold:
  assumes "features_for_patterns fi TN self message attribute = Inr (matrix, message')"
    and "fmlookup TN attribute = Some key"
  defines "toks \<equiv> (case fmlookup (tokens message) key of None \<Rightarrow> [] | Some ts \<Rightarrow> ts)"
  defines "rows \<equiv> (if return_sequence self then length toks else 1)"
  shows "\<exists>vec'. pattern_loop fi (return_sequence self) (msg_text message) 0 (known_patterns self)
                  toks (np_zeros rows (length (known_patterns self))) =
                Inr (map (apply_marks fi (msg_text message) (known_patterns self)) toks, vec') \<and>
           matrix = to_coo_matrix vec' \<and>
           message' = (case fmlookup (tokens message) key of
                          None \<Rightarrow> message
                        | Some ts \<Rightarrow> message \<lparr> tokens := fmupd key
                            (map (apply_marks fi (msg_text message) (known_patterns self)) toks)
                            (tokens message) \<rparr>) \<and>
           shape vec' = (rows, length (known_patterns self)) \<and>
           (\<forall>p \<in> set (known_patterns self). \<exists>ms. fi (kp_pattern p) (msg_text message) = Inr ms) \<and>
           (\<forall>r c. r < rows \<longrightarrow> c < length (known_patterns self) \<longrightarrow>
              cell vec' r c =
                (if \<exists>k < length toks.
                      hit (toks ! k) (matches_of fi (known_patterns self ! c) (msg_text message)) \<and>
                      r = (if return_sequence self then k else 0)
                 then 1 else 0))"
proof -
  let ?v0 = "np_zeros rows (length (known_patterns self))"
  obtain toks' vec' where
    pl: "pattern_loop fi (return_sequence self) (msg_text message) 0 (known_patterns self)
           toks ?v0 = Inr (toks', vec')"
    and m: "matrix = to_coo_matrix vec'"
    and m': "message' = (case fmlookup (tokens message) key of
                          None \<Rightarrow> message
                        | Some ts \<Rightarrow> message \<lparr> tokens := fmupd key toks' (tokens message) \<rparr>)"
    using assms(1,2) unfolding features_for_patterns_def toks_def rows_def Let_def
    by (auto split: sum.splits prod.splits)
  have sh0: "shape ?v0 = (rows, length (known_patterns self))" by (simp add: np_zeros_def)
  have c2: "0 + length (known_patterns self) \<le> snd (shape ?v0)" using sh0 by simp
  have c3: "if return_sequence self then length toks \<le> fst (shape ?v0) else 0 < fst (shape ?v0)"
    by (simp add: rows_def np_zeros_def)
  from pattern_loop_result[OF pl wf_np_zeros c2 c3] have
    r1: "toks' = map (apply_marks fi (msg_text message) (known_patterns self)) toks"
    and r2: "\<forall>p \<in> set (known_patterns self). \<exists>ms. fi (kp_pattern p) (msg_text message) = Inr ms"
    and r3: "same_but ?v0 vec' (\<lambda>r c. 0 \<le> c \<and> c < 0 + length (known_patterns self) \<and>
            (\<exists>k < length toks. hit (toks ! k)
                (matches_of fi (known_patterns self ! (c - 0)) (msg_text message)) \<and>
                r = (if return_sequence self then k else 0)))"
    by simp_all
  have sh: "shape vec' = (rows, length (known_patterns self))"
    using same_but_shape[OF r3] sh0 by simp
  have cells: "\<forall>r c. r < rows \<longrightarrow> c < length (known_patterns self) \<longrightarrow>
              cell vec' r c =
                (if \<exists>k < length toks.
                      hit (toks ! k) (matches_of fi (known_patterns self ! c) (msg_text message)) \<and>
                      r = (if return_sequence self then k else 0)
                 then 1 else 0)"
  proof (intro allI impI)
    fix r c
    assume rc: "r < rows" "c < length (known_patterns self)"
    have z: "cell ?v0 r c = 0" using rc by (rule cell_np_zeros)
    from rc r3 sh0 have "cell vec' r c =
        (if \<exists>k < length toks.
              hit (toks ! k) (matches_of fi (known_patterns self ! c) (msg_text message)) \<and>
              r = (if return_sequence self then k else 0)
         then 1 else cell ?v0 r c)"
      unfolding same_but_def by simp
    then show "cell vec' r c =
        (if \<exists>k < length toks.
              hit (toks ! k) (matches_of fi (known_patterns self ! c) (msg_text message)) \<and>
              r = (if return_sequence self then k else 0)
         then 1 else 0)"
      unfolding z .
  qed
  from pl m m' r1 r2 sh cells show ?thesis by blast
qed

text \<open>
  Claim C8, amended.  Let \<^verbatim>\<open>_features_for_patterns\<close> return for a tokenized message, let
  \<open>toks ! i\<close> be a token and \<open>known_patterns self ! j\<close> a known pattern with matches \<open>ms\<close>.
  The token lists before and after have the same length.  If no later known pattern carries
  the same name, the token's mark under the pattern's name is \<^verbatim>\<open>True\<close> exactly when some match
  span overlaps the token's span (offset before the match end and end after the match start).
  Whenever the token overlaps a match, the entry in the token's row and the pattern's column
  is \<open>1.0\<close>.  With \<^verbatim>\<open>return_sequence\<close> that entry is \<open>1.0\<close> exactly when the token overlaps a
  match; without it the single row's entry is \<open>1.0\<close> exactly when some token of the message
  overlaps a match.
\<close>

theorem features_for_patterns_marks_overlapping_tokens:
  assumes "features_for_patterns re_finditer TOKENS_NAMES self message attribute =
             Inr (matrix, message')"
    and "fmlookup TOKENS_NAMES attribute = Some key"
    and "fmlookup (tokens message) key = Some toks"
    and "i < length toks"
    and "j < length (known_patterns self)"
    and "re_finditer (kp_pattern (known_patterns self ! j)) (msg_text message) = Inr ms"
  shows "\<exists>toks'. fmlookup (tokens message') key = Some toks' \<and> length toks' = length toks \<and>
           ((\<forall>j'. j < j' \<and> j' < length (known_patterns self) \<longrightarrow>
                 kp_name (known_patterns self ! j') \<noteq> kp_name (known_patterns self ! j)) \<longrightarrow>
              fmlookup (tok_pattern (toks' ! i)) (kp_name (known_patterns self ! j)) =
                Some (hit (toks ! i) ms)) \<and>
           (hit (toks ! i) ms \<longrightarrow>
              ((if return_sequence self then i else 0), j, 1) \<in> set (coo_entries matrix)) \<and>
           (return_sequence self \<longrightarrow>
              ((i, j, 1) \<in> set (coo_entries matrix) \<longleftrightarrow> hit (toks ! i) ms)) \<and>
           (\<not> return_sequence self \<longrightarrow>
              ((0, j, 1) \<in> set (coo_entries matrix) \<longleftrightarrow>
                 (\<exists>i' < length toks. hit (toks ! i') ms)))"
proof -
  let ?kps = "known_patterns self"
  let ?rows = "if return_sequence self then length toks else 1"
  let ?toks' = "map (apply_marks re_finditer (msg_text message) ?kps) toks"
  from features_for_patterns_unfold[OF assms(1,2)] assms(3) obtain vec' where
    m: "matrix = to_coo_matrix vec'"
    and m': "message' = message \<lparr> tokens := fmupd key ?toks' (tokens message) \<rparr>"
    and sh: "shape vec' = (?rows, length ?kps)"
    and cells: "\<forall>r c. r < ?rows \<longrightarrow> c < length ?kps \<longrightarrow>
              cell vec' r c =
                (if \<exists>k < length toks.
                      hit (toks ! k) (matches_of re_finditer (?kps ! c) (msg_text message)) \<and>
                      r = (if return_sequence self then k else 0)
                 then 1 else 0)"
    by auto
  have mo: "matches_of re_finditer (?kps ! j) (msg_text message) = ms"
    using assms(6) by (simp add: matches_of_def)
  have 1: "fmlookup (tokens message') key = Some ?toks'" using m' by simp
  have 2: "length ?toks' = length toks" by simp
  have 3: "(\<forall>j'. j < j' \<and> j' < length ?kps \<longrightarrow> kp_name (?kps ! j') \<noteq> kp_name (?kps ! j)) \<longrightarrow>
              fmlookup (tok_pattern (?toks' ! i)) (kp_name (?kps ! j)) = Some (hit (toks ! i) ms)"
    using apply_marks_lookup[OF assms(5), of re_finditer "msg_text message" "toks ! i"] assms(4) mo
    by simp
  have entry: "((r, j, 1) \<in> set (coo_entries matrix)) =
          (r < ?rows \<and> (\<exists>k < length toks. hit (toks ! k) ms \<and>
                      r = (if return_sequence self then k else 0)))" for r
  proof (cases "r < ?rows")
    case True
    with cells assms(5) have "cell vec' r j =
        (if \<exists>k < length toks.
              hit (toks ! k) (matches_of re_finditer (?kps ! j) (msg_text message)) \<and>
              r = (if return_sequence self then k else 0)
         then 1 else 0)"
      by blast
    then have "cell vec' r j =
        (if \<exists>k < length toks. hit (toks ! k) ms \<and> r = (if return_sequence self then k else 0)
         then 1 else 0)"
      unfolding mo .
    then show ?thesis
      unfolding m coo_entries_iff sh using True assms(5) by (simp split: if_splits)
  next
    case False
    then show ?thesis unfolding m coo_entries_iff sh by simp
  qed
  have 4: "hit (toks ! i) ms \<longrightarrow>
              ((if return_sequence self then i else 0), j, 1) \<in> set (coo_entries matrix)"
    unfolding entry using assms(4) by auto
  have 5: "return_sequence self \<longrightarrow>
              ((i, j, 1) \<in> set (coo_entries matrix) \<longleftrightarrow> hit (toks ! i) ms)"
    unfolding entry using assms(4) by auto
  have 6: "\<not> return_sequence self \<longrightarrow>
              ((0, j, 1) \<in> set (coo_entries matrix) \<longleftrightarrow>
                 (\<exists>i' < length toks. hit (toks ! i') ms))"
    unfolding entry by auto
  from 1 2 3 4 5 6 show ?thesis by blast
qed

text \<open>
  Claim C10.  Whenever \<^verbatim>\<open>_features_for_patterns\<close> returns, the matrix has one column per
  entry of \<^verbatim>\<open>known_patterns\<close> and one row (one row per token of the message with
  \<^verbatim>\<open>return_sequence\<close>); and it returns whenever every known pattern compiles.
\<close>

theorem features_for_patterns_shape:
  assumes "fmlookup TOKENS_NAMES attribute = Some key"
  shows "(features_for_patterns re_finditer TOKENS_NAMES self message attribute =
            Inr (matrix, message') \<longrightarrow>
          coo_shape matrix =
            (if return_sequence self
             then length (case fmlookup (tokens message) key of None \<Rightarrow> [] | Some ts \<Rightarrow> ts)
             else 1,
             length (known_patterns self))) \<and>
         ((\<forall>p \<in> set (known_patterns self).
              \<exists>ms. re_finditer (kp_pattern p) (msg_text message) = Inr ms) \<longrightarrow>
          (\<exists>m msg'. features_for_patterns re_finditer TOKENS_NAMES self message attribute =
              Inr (m, msg')))"
proof (intro conjI impI)
  assume "features_for_patterns re_finditer TOKENS_NAMES self message attribute =
            Inr (matrix, message')"
  from features_for_patterns_unfold[OF this assms]
  show "coo_shape matrix =
            (if return_sequence self
             then length (case fmlookup (tokens message) key of None \<Rightarrow> [] | Some ts \<Rightarrow> ts)
             else 1,
             length (known_patterns self))"
    by (auto simp: to_coo_matrix_def)
next
  assume ok: "\<forall>p \<in> set (known_patterns self).
              \<exists>ms. re_finditer (kp_pattern p) (msg_text message) = Inr ms"
  let ?toks = "case fmlookup (tokens message) key of None \<Rightarrow> [] | Some ts \<Rightarrow> ts"
  let ?rows = "if return_sequence self then length ?toks else 1"
  let ?v0 = "np_zeros ?rows (length (known_patterns self))"
  have sh0: "shape ?v0 = (?rows, length (known_patterns self))" by (simp add: np_zeros_def)
  have c2: "0 + length (known_patterns self) \<le> snd (shape ?v0)" using sh0 by simp
  have c3: "if return_sequence self then length ?toks \<le> fst (shape ?v0) else 0 < fst (shape ?v0)"
    by (simp add: np_zeros_def)
  from pattern_loop_returns[where pj = 0 and rs = "return_sequence self" and toks = "?toks"
         and fi = re_finditer and mtext = "msg_text message" and ps = "known_patterns self"
         and v = "?v0", OF ok wf_np_zeros c2 c3]
  obtain toks' v' where
    "pattern_loop re_finditer (return_sequence self) (msg_text message) 0 (known_patterns self)
       ?toks ?v0 = Inr (toks', v')" by blast
  then show "\<exists>m msg'. features_for_patterns re_finditer TOKENS_NAMES self message attribute =
              Inr (m, msg')"
    using assms by (simp add: features_for_patterns_def Let_def)
qed

text \<open>
  Claim C8 as stated fails.  Two known patterns are named \<^verbatim>\<open>city\<close>; the first matches at
  (0, 3) and overlaps the token \<^verbatim>\<open>New\<close>, the second has no match.  The token \<^verbatim>\<open>New\<close> ends
  with the mark \<^verbatim>\<open>city: False\<close>.  The token \<^verbatim>\<open>York\<close> overlaps no match, and the single row
  holds \<open>1.0\<close> in the first pattern's column.
\<close>

theorem same_name_pattern_overwrites_mark:
  "example_finditer ''New'' ''New York'' = Inr [(0, 3)] \<and>
   overlaps token_new (0, 3) \<and>
   \<not> overlaps token_york (0, 3) \<and>
   features_for_patterns example_finditer example_TOKENS_NAMES featurizer_same_name
       message_new_york ''text'' =
     Inr (\<lparr> coo_shape = (1, 2), coo_entries = [(0, 0, 1)] \<rparr>,
          \<lparr> msg_text = ''New York'',
            tokens = fmap_of_list [(''tokens'',
              [token_new \<lparr> tok_pattern := fmap_of_list [(''city'', False)] \<rparr>,
               token_york \<lparr> tok_pattern := fmap_of_list [(''city'', False)] \<rparr>])] \<rparr>)"
  by code_simp

text \<open>
  The theorem at a match (2, 6) that partially overlaps both tokens of \<^verbatim>\<open>"New York"\<close>: both
  tokens are marked and both rows hold \<open>1.0\<close>.
\<close>

theorem features_for_patterns_marks_overlapping_tokens_witness:
  "hit token_new [(2, 6)] \<and> hit token_york [(2, 6)] \<and>
   (\<exists>matrix message' toks'.
      features_for_patterns example_finditer example_TOKENS_NAMES featurizer_span
        message_new_york ''text'' = Inr (matrix, message') \<and>
      fmlookup (tokens message') ''tokens'' = Some toks' \<and>
      fmlookup (tok_pattern (toks' ! 0)) ''span'' = Some True \<and>
      fmlookup (tok_pattern (toks' ! 1)) ''span'' = Some True \<and>
      (0, 0, 1) \<in> set (coo_entries matrix) \<and> (1, 0, 1) \<in> set (coo_entries matrix))"
proof -
  let ?matrix = "\<lparr> coo_shape = (2, 2), coo_entries = [(0, 0, 1), (1, 0, 1)] \<rparr>"
  let ?message' = "\<lparr> msg_text = ''New York'',
            tokens = fmap_of_list [(''tokens'',
              [token_new \<lparr> tok_pattern := fmap_of_list [(''span'', True), (''city'', False)] \<rparr>,
               token_york \<lparr> tok_pattern := fmap_of_list [(''span'', True), (''city'', False)] \<rparr>])] \<rparr>"
  have r: "features_for_patterns example_finditer example_TOKENS_NAMES featurizer_span
             message_new_york ''text'' = Inr (?matrix, ?message')"
    by code_simp
  have k: "fmlookup example_TOKENS_NAMES ''text'' = Some ''tokens''" by code_simp
  have t: "fmlookup (tokens message_new_york) ''tokens'' = Some [token_new, token_york]"
    by code_simp
  have j: "0 < length (known_patterns featurizer_span)" by code_simp
  have ms: "example_finditer (kp_pattern (known_patterns featurizer_span ! 0))
              (msg_text message_new_york) = Inr [(2, 6)]" by code_simp
  have last: "\<forall>j'. 0 < j' \<and> j' < length (known_patterns featurizer_span) \<longrightarrow>
                kp_name (known_patterns featurizer_span ! j') \<noteq>
                kp_name (known_patterns featurizer_span ! 0)"
    by (auto simp: featurizer_span_def less_Suc_eq)
  have nm: "kp_name (known_patterns featurizer_span ! 0) = ''span''"
    by (simp add: featurizer_span_def)
  have rs: "return_sequence featurizer_span" by (simp add: featurizer_span_def)
  have h0: "hit token_new [(2, 6)]" and h1: "hit token_york [(2, 6)]"
    by (simp_all add: hit_def overlaps_def token_new_def token_york_def)
  have i0: "0 < length [token_new, token_york]" and i1: "1 < length [token_new, token_york]"
    by simp_all
  from features_for_patterns_marks_overlapping_tokens[OF r k t i0 j ms]
       features_for_patterns_marks_overlapping_tokens[OF r k t i1 j ms]
       last nm rs h0 h1 r
  show ?thesis by auto
qed

text \<open>The theorem at the message \<^verbatim>\<open>"New York"\<close>: two tokens, two patterns, shape (2, 2).\<close>

theorem features_for_patterns_shape_witness:
  "fmlookup example_TOKENS_NAMES ''text'' = Some ''tokens'' \<and>
   (\<exists>matrix message'.
      features_for_patterns example_finditer example_TOKENS_NAMES featurizer_span
        message_new_york ''text'' = Inr (matrix, message') \<and>
      coo_shape matrix = (2, 2))"
proof -
  have k: "fmlookup example_TOKENS_NAMES ''text'' = Some ''tokens''" by code_simp
  have ok: "\<forall>p \<in> set (known_patterns featurizer_span).
              \<exists>ms. example_finditer (kp_pattern p) (msg_text message_new_york) = Inr ms"
    by (simp add: example_finditer_def)
  have len: "length (case fmlookup (tokens message_new_york) ''tokens'' of
                       None \<Rightarrow> [] | Some ts \<Rightarrow> ts) = 2"
    by code_simp
  have n: "length (known_patterns featurizer_span) = 2" by code_simp
  have rs: "return_sequence featurizer_span" by code_simp
  from features_for_patterns_shape[OF k, of example_finditer featurizer_span message_new_york]
       ok obtain m msg' where
    r: "features_for_patterns example_finditer example_TOKENS_NAMES featurizer_span
          message_new_york ''text'' = Inr (m, msg')"
    by blast
  from features_for_patterns_shape[OF k, of example_finditer featurizer_span message_new_york m msg']
       r len n rs
  have "coo_shape m = (2, 2)" by simp
  with k r show ?thesis by blast
qed

section \<open>Properties of \<^verbatim>\<open>should_retrain\<close>\<close>

lemma nlu_section_returns_langs:
  assumes "did_section_fingerprint_change fp1 fp2 SECTION_NLU = Inr c"
  shows "(\<exists>ls. c = Langs ls) \<and> (\<exists>ks. py_keys (dict_get fp2 ''nlu-config'') = Inr ks)"
proof -
  from assms obtain old_langs new_langs where
    o: "fingerprint_languages fp1 = Inr old_langs" and n: "fingerprint_languages fp2 = Inr new_langs"
    by (auto simp: did_section_fingerprint_change_def SECTION_NLU_def split: sum.splits)
  let ?added = "list_of_set (set new_langs - set old_langs)"
  let ?removed = "list_of_set (set old_langs - set new_langs)"
  have loop: "nlu_keys_loop fp1 fp2 (set (old_langs @ new_langs)) ?added ?removed
                (relevant_keys SECTION_NLU) {} = Inr c"
    using assms o n by (simp add: did_section_fingerprint_change_def SECTION_NLU_def Let_def)
  from nlu_keys_loop_result[OF loop] have 1: "\<exists>ls. c = Langs ls"
    by (auto split: if_splits)
  from n have 2: "\<exists>ks. py_keys (dict_get fp2 ''nlu-config'') = Inr ks"
    by (auto simp: fingerprint_languages_def FINGERPRINT_CONFIG_NLU_KEY_def split: sum.splits)
  from 1 2 show ?thesis ..
qed

lemma move_model_failure:
  "shutil_move rt source target fs = (Inl e, fs') \<Longrightarrow> move_model rt source target fs = (False, fs')"
  by (simp add: move_model_def)

lemma move_model_success:
  "shutil_move rt source target fs = (Inr u, fs') \<Longrightarrow> move_model rt source target fs = (True, fs')"
  by (simp add: move_model_def)

lemma nlu_move_loop_list:
  assumes "py_keys (dict_get new_fingerprint ''nlu-config'') = Inr ks"
  shows "\<exists>extra fs'. nlu_move_loop rt new_fingerprint train_path old_nlu langs (Langs ls) fs =
            (Inr (Langs (ls @ extra)), fs') \<and> set extra \<subseteq> set langs \<inter> set ks"
proof (induction langs arbitrary: ls fs)
  case Nil
  show ?case by (rule exI[of _ "[]"]) simp
next
  case (Cons lang langs)
  show ?case
  proof (cases "lang \<in> set ks")
    case False
    from Cons.IH[of ls fs] obtain extra fs' where
      "nlu_move_loop rt new_fingerprint train_path old_nlu langs (Langs ls) fs =
         (Inr (Langs (ls @ extra)), fs')" "set extra \<subseteq> set langs \<inter> set ks"
      by blast
    with False assms show ?thesis by (intro exI[of _ extra] exI[of _ fs']) auto
  next
    case True
    let ?src = "case map_of old_nlu lang of None \<Rightarrow> None | Some src \<Rightarrow> src"
    obtain ok fs1 where m: "move_model rt ?src (train_path @ [''nlu-'' @ lang]) fs = (ok, fs1)"
      by (cases "move_model rt ?src (train_path @ [''nlu-'' @ lang]) fs") auto
    show ?thesis
    proof (cases ok)
      case True
      from Cons.IH[of ls fs1] obtain extra fs' where
        "nlu_move_loop rt new_fingerprint train_path old_nlu langs (Langs ls) fs1 =
           (Inr (Langs (ls @ extra)), fs')" "set extra \<subseteq> set langs \<inter> set ks"
        by blast
      with True \<open>lang \<in> set ks\<close> assms m show ?thesis
        by (intro exI[of _ extra] exI[of _ fs']) auto
    next
      case False
      from Cons.IH[of "ls @ [lang]" fs1] obtain extra fs' where
        "nlu_move_loop rt new_fingerprint train_path old_nlu langs (Langs (ls @ [lang])) fs1 =
           (Inr (Langs ((ls @ [lang]) @ extra)), fs')" "set extra \<subseteq> set langs \<inter> set ks"
        by blast
      with False \<open>lang \<in> set ks\<close> assms m show ?thesis
        by (intro exI[of _ "lang # extra"] exI[of _ fs']) auto
    qed
  qed
qed

text \<open>
  Claim C5.  Let the old model exist and be unpacked, its fingerprint and subdirectories be
  read, the model not be outdated, and the Core section be unchanged.  If \<^verbatim>\<open>shutil.move\<close>
  of the old Core artifacts into the training directory raises, \<^verbatim>\<open>should_retrain\<close> raises
  nothing: it returns a result for which \<^verbatim>\<open>should_retrain_core()\<close> and
  \<^verbatim>\<open>should_retrain_nlg()\<close> are true.
\<close>

theorem should_retrain_core_move_failure:
  assumes "path_exists fs model_file"
    and "unpack_model rt model_file None fs = (Inr unpacked, fs1)"
    and "fingerprint_from_path rt fs1 unpacked = Inr (PDict last_fingerprint)"
    and "get_model_subdirectories rt fs1 unpacked = Inr (old_core, old_nlu)"
    and "version_outdated rt (dict_get last_fingerprint ''version'') = Inr False"
    and "did_section_fingerprint_change last_fingerprint new_fingerprint SECTION_CORE =
           Inr (Flag False)"
    and "did_section_fingerprint_change last_fingerprint new_fingerprint SECTION_NLU =
           Inr nlu_changed"
    and "shutil_move rt old_core (train_path @ [DEFAULT_CORE_SUBDIRECTORY_NAME]) fs1 =
           (Inl e, fs2)"
  shows "\<exists>result fs'.
           should_retrain rt new_fingerprint (Some model_file) train_path fs = (Inr result, fs') \<and>
           truthy (should_retrain_core result) \<and> truthy (should_retrain_nlg result)"
proof -
  from nlu_section_returns_langs[OF assms(7)] obtain ls ks where
    ls: "nlu_changed = Langs ls" and ks: "py_keys (dict_get new_fingerprint ''nlu-config'') = Inr ks"
    by blast
  obtain nlg_changed where
    nlg: "did_section_fingerprint_change last_fingerprint new_fingerprint SECTION_NLG =
            Inr nlg_changed"
    by (simp add: did_section_fingerprint_change_def SECTION_NLG_def)
  let ?fc = "\<lparr> nlu = Langs ls, core = Flag False, nlg = nlg_changed, force_training = False \<rparr>"
  have cmp: "compare_fingerprints last_fingerprint new_fingerprint False = Inr ?fc"
    using assms(6,7) nlg ls by (simp add: compare_fingerprints_def)
  let ?fc1 = "?fc \<lparr> core := Flag True \<rparr>"
  have mc: "merge_core rt train_path old_core ?fc fs1 = ((True, ?fc1), fs2)"
    using move_model_failure[OF assms(8)]
    by (simp add: merge_core_def should_retrain_core_def py_or_def)
  from nlu_move_loop_list[OF ks, of rt train_path old_nlu "map fst old_nlu" ls fs2]
  obtain extra fs3 where
    loop: "nlu_move_loop rt new_fingerprint train_path old_nlu (map fst old_nlu) (Langs ls) fs2 =
             (Inr (Langs (ls @ extra)), fs3)"
    by blast
  let ?result = "?fc1 \<lparr> nlu := Langs (ls @ extra) \<rparr>"
  have mo: "merge_old_model rt new_fingerprint train_path old_core old_nlu ?fc fs1 =
              (Inr ?result, fs3)"
    using mc loop
    by (simp add: merge_old_model_def should_retrain_nlg_def should_retrain_core_def
        should_retrain_nlu_def py_or_def)
  have body: "should_retrain_body rt new_fingerprint train_path unpacked fs1 = (Inr ?result, fs3)"
    using assms(3,4,5) cmp mo by (simp add: should_retrain_body_def)
  have "should_retrain rt new_fingerprint (Some model_file) train_path fs =
          (Inr ?result, rmtree unpacked fs3)"
    using assms(1,2) body by (simp add: should_retrain_def)
  moreover have "truthy (should_retrain_core ?result)"
    by (simp add: should_retrain_core_def py_or_def)
  moreover have "truthy (should_retrain_nlg ?result)"
    by (simp add: should_retrain_nlg_def should_retrain_core_def py_or_def)
  ultimately show ?thesis by blast
qed

text \<open>
  What the loop over the old model's languages does: a language that is not among the new
  fingerprint's \<^verbatim>\<open>nlu-config\<close> keys is passed over, with no move and nothing appended; a
  failed move appends the language when \<^verbatim>\<open>languages_to_train\<close> is a list, and raises
  \<^verbatim>\<open>AttributeError\<close> when it is a bool.
\<close>

lemma nlu_move_loop_skips_dropped_language:
  assumes "py_keys (dict_get new_fingerprint ''nlu-config'') = Inr ks" and "lang \<notin> set ks"
  shows "nlu_move_loop rt new_fingerprint train_path old_nlu (lang # langs) languages_to_train fs =
         nlu_move_loop rt new_fingerprint train_path old_nlu langs languages_to_train fs"
  using assms by simp

lemma nlu_move_loop_failed_move:
  assumes "py_keys (dict_get new_fingerprint ''nlu-config'') = Inr ks" and "lang \<in> set ks"
    and "shutil_move rt (case map_of old_nlu lang of None \<Rightarrow> None | Some src \<Rightarrow> src)
           (train_path @ [''nlu-'' @ lang]) fs = (Inl e, fs')"
  shows "nlu_move_loop rt new_fingerprint train_path old_nlu (lang # langs) (Langs ls) fs =
         nlu_move_loop rt new_fingerprint train_path old_nlu langs (Langs (ls @ [lang])) fs'"
    and "nlu_move_loop rt new_fingerprint train_path old_nlu (lang # langs) (Flag b) fs =
         (Inl AttributeError, fs')"
  using assms move_model_failure[OF assms(3)] by simp_all

text \<open>
  Claim C3 at a failing input.  The old model is outdated, so \<^verbatim>\<open>should_retrain_nlu()\<close>
  returns \<^verbatim>\<open>True\<close> and \<^verbatim>\<open>languages_to_train\<close> is a bool.  The language \<^verbatim>\<open>en\<close> of the old
  model is still among the new fingerprint's \<^verbatim>\<open>nlu-config\<close> keys, its move fails, and
  \<^verbatim>\<open>languages_to_train.append(lang)\<close> raises \<^verbatim>\<open>AttributeError\<close>: no comparison result is
  returned.
\<close>

theorem outdated_model_failed_move_raises:
  "fst (unpack_model example_runtime [''models'', ''old.tar.gz''] None fs_outdated_model) =
     Inr [''tmp'', ''tmpab12''] \<and>
   get_model_subdirectories example_runtime
     (snd (unpack_model example_runtime [''models'', ''old.tar.gz''] None fs_outdated_model))
     [''tmp'', ''tmpab12''] = Inr (Some [''tmp'', ''tmpab12'', ''core''], [(''en'', None)]) \<and>
   version_outdated example_runtime (dict_get fp_outdated_en ''version'') = Inr True \<and>
   py_keys (dict_get fp_old_en ''nlu-config'') = Inr [''en''] \<and>
   fst (move_model example_runtime None [''train'', ''nlu-en'']
     (snd (unpack_model example_runtime [''models'', ''old.tar.gz''] None fs_outdated_model))) =
     False \<and>
   fst (should_retrain example_runtime fp_old_en (Some [''models'', ''old.tar.gz'']) [''train'']
          fs_outdated_model) = Inl AttributeError"
  by code_simp

text \<open>
  The theorem at a current model without a Core directory and an unchanged fingerprint: the
  move of \<^verbatim>\<open>None\<close> fails.
\<close>

theorem should_retrain_core_move_failure_witness:
  "path_exists fs_model_without_core [''models'', ''old.tar.gz''] \<and>
   did_section_fingerprint_change fp_en_de fp_en_de SECTION_CORE = Inr (Flag False) \<and>
   version_outdated example_runtime (dict_get fp_en_de ''version'') = Inr False \<and>
   (\<exists>result fs'.
      should_retrain example_runtime fp_en_de (Some [''models'', ''old.tar.gz'']) [''train'']
        fs_model_without_core = (Inr result, fs') \<and>
      truthy (should_retrain_core result) \<and> truthy (should_retrain_nlg result))"
proof -
  let ?m = "[''models'', ''old.tar.gz'']"
  let ?t = "[''tmp'', ''tmpab12'']"
  let ?fs1 = "snd (unpack_model example_runtime ?m None fs_model_without_core)"
  have 1: "path_exists fs_model_without_core ?m" by code_simp
  have "fst (unpack_model example_runtime ?m None fs_model_without_core) = Inr ?t"
    by code_simp
  then have 2: "unpack_model example_runtime ?m None fs_model_without_core = (Inr ?t, ?fs1)"
    by (simp add: prod_eq_iff)
  have 3: "fingerprint_from_path example_runtime ?fs1 ?t = Inr (PDict fp_en_de)"
    by code_simp
  have 4: "get_model_subdirectories example_runtime ?fs1 ?t =
             Inr (None, [(''de'', None), (''en'', Some [''tmp'', ''tmpab12'', ''nlu-en''])])"
    by code_simp
  have 5: "version_outdated example_runtime (dict_get fp_en_de ''version'') = Inr False"
    by code_simp
  have 6: "did_section_fingerprint_change fp_en_de fp_en_de SECTION_CORE = Inr (Flag False)"
    by code_simp
  have 7: "did_section_fingerprint_change fp_en_de fp_en_de SECTION_NLU = Inr (Langs [])"
    by code_simp
  have 8: "shutil_move example_runtime None ([''train''] @ [DEFAULT_CORE_SUBDIRECTORY_NAME]) ?fs1 =
             (Inl TypeError, ?fs1)"
    by (simp add: example_runtime_def example_shutil_move_def)
  from should_retrain_core_move_failure[OF 1 2 3 4 5 6 7 8] 1 5 6 show ?thesis by blast
qed

section \<open>Properties of packaging and persistence\<close>

lemma map_of_update: "map_of (AList.update k v al) k' = (if k' = k then Some v else map_of al k')"
  by (simp add: update_conv')

lemma distinct_update_fs: "distinct (map fst fs) \<Longrightarrow> distinct (map fst (AList.update k v fs))"
  by (simp add: distinct_update)

lemma map_of_rmtree: "map_of (rmtree d fs) p = (if under d p then None else map_of fs p)"
  by (induction fs) (auto simp: rmtree_def)

lemma write_file_success:
  assumes "write_file p content fs = (Inr u, fs')"
  shows "fs' = AList.update p (File content) fs" and "p \<noteq> []"
  using assms by (auto simp: write_file_def split: if_splits)

lemma makedirs_prefixes_keeps:
  "map_of fs p = Some n \<Longrightarrow> p \<noteq> [] \<Longrightarrow> map_of (makedirs_prefixes ds fs) p = Some n"
proof (induction ds arbitrary: fs)
  case Nil
  then show ?case by simp
next
  case (Cons d ds)
  let ?fs = "if d = [] \<or> path_exists fs d then fs else AList.update d Dir fs"
  have "map_of ?fs p = Some n"
    using Cons.prems by (auto simp: map_of_update path_exists_def)
  from Cons.IH[OF this Cons.prems(2)] show ?case by simp
qed

lemma makedirs_prefixes_distinct:
  "distinct (map fst fs) \<Longrightarrow> distinct (map fst (makedirs_prefixes ds fs))"
  by (induction ds arbitrary: fs) (auto simp: distinct_update)

lemma makedirs_keeps:
  assumes "makedirs d fs = (r, fs')" "map_of fs p = Some n" "p \<noteq> []"
  shows "map_of fs' p = Some n"
  using assms by (auto simp: makedirs_def Let_def makedirs_prefixes_keeps split: if_splits)

lemma makedirs_distinct:
  assumes "makedirs d fs = (r, fs')" "distinct (map fst fs)"
  shows "distinct (map fst fs')"
  using assms by (auto simp: makedirs_def Let_def makedirs_prefixes_distinct split: if_splits)

lemma extractall_lookup:
  assumes "\<forall>(a', n') \<in> set ms. wd @ a' = p \<longrightarrow> n' = n"
    and "map_of fs p = Some n \<or> (\<exists>a'. (a', n) \<in> set ms \<and> wd @ a' = p)"
  shows "map_of (extractall ms wd fs) p = Some n"
  using assms
proof (induction ms arbitrary: fs)
  case Nil
  then show ?case by simp
next
  case (Cons m ms)
  obtain a0 n0 where m: "m = (a0, n0)" by (cases m)
  have 1: "\<forall>(a', n') \<in> set ms. wd @ a' = p \<longrightarrow> n' = n" using Cons.prems(1) by simp
  have 2: "map_of (AList.update (wd @ a0) n0 fs) p = Some n \<or>
           (\<exists>a'. (a', n) \<in> set ms \<and> wd @ a' = p)"
    using Cons.prems m by (auto simp: map_of_update)
  from Cons.IH[OF 1 2] m show ?case by simp
qed

lemma under_refl: "under p p"
  by (simp add: under_def)

lemma tar_add_member:
  assumes "(p, n) \<in> set fs" "p \<noteq> output_filename"
  shows "(arcname, n) \<in> set (tar_add fs output_filename p arcname)"
proof -
  have "(p, n) \<in> set (filter (\<lambda>(q, n). under p q \<and> q \<noteq> output_filename) fs)"
    using assms by (simp add: under_refl)
  then have "(\<lambda>(q, n). (arcname @ drop (length p) q, n)) (p, n) \<in>
             set (tar_add fs output_filename p arcname)"
    unfolding tar_add_def set_map by (rule imageI)
  then show ?thesis by simp
qed

lemma tar_add_single:
  assumes "(a, n) \<in> set (tar_add fs output_filename (d @ [x]) [x])" "a = [y]"
  shows "y = x \<and> (d @ [x], n) \<in> set fs"
proof -
  from assms(1) obtain q where q: "(q, n) \<in> set fs" "under (d @ [x]) q"
    "a = [x] @ drop (length (d @ [x])) q"
    by (auto simp: tar_add_def)
  from q(3) assms(2) have "y = x" "drop (length (d @ [x])) q = []" by simp_all
  with q(2) have "q = d @ [x]"
    using append_take_drop_id[of "length (d @ [x])" q] unfolding under_def by simp
  with q(1) \<open>y = x\<close> show ?thesis by simp
qed

lemma listdir_member:
  assumes "(d @ [x], n) \<in> set fs"
  shows "x \<in> set (listdir fs d)"
proof -
  have "(d @ [x], n) \<in> set (filter (\<lambda>(p, n). p \<noteq> [] \<and> butlast p = d) fs)"
    using assms by simp
  then have "(\<lambda>(p, n). last p) (d @ [x], n) \<in> set (listdir fs d)"
    unfolding listdir_def set_map by (rule imageI)
  then show ?thesis by simp
qed

lemma archive_members:
  assumes "distinct (map fst fs)"
    and "map_of fs (d @ [x]) = Some n"
    and "d @ [x] \<noteq> output_filename"
  defines "members \<equiv> concat (map (\<lambda>elem_name.
             tar_add fs output_filename (d @ [elem_name]) [elem_name]) (listdir fs d))"
  shows "([x], n) \<in> set members" and "\<forall>(a', n') \<in> set members. a' = [x] \<longrightarrow> n' = n"
proof -
  have mem: "(d @ [x], n) \<in> set fs" using assms(2) by (rule map_of_SomeD)
  have "x \<in> set (listdir fs d)" using mem by (rule listdir_member)
  moreover have "([x], n) \<in> set (tar_add fs output_filename (d @ [x]) [x])"
    using mem assms(3) by (rule tar_add_member)
  ultimately show "([x], n) \<in> set members" unfolding members_def by auto
  show "\<forall>(a', n') \<in> set members. a' = [x] \<longrightarrow> n' = n"
  proof (clarify)
    fix n' assume "([x], n') \<in> set members"
    then obtain y where "([x], n') \<in> set (tar_add fs output_filename (d @ [y]) [y])"
      unfolding members_def by auto
    from tar_add_single[OF this refl] have "(d @ [x], n') \<in> set fs" by simp
    with assms(1) have "map_of fs (d @ [x]) = Some n'" by simp
    with assms(2) show "n' = n" by simp
  qed
qed

lemma unpack_model_lookup:
  assumes "unpack_model rt archive working_directory fs = (Inr unpacked, fs')"
  shows "\<exists>members. map_of fs archive = Some (TarGz members) \<and>
           (\<forall>a n. (a, n) \<in> set members \<longrightarrow> (\<forall>(a', n') \<in> set members. a' = a \<longrightarrow> n' = n) \<longrightarrow>
              map_of fs' (unpacked @ a) = Some n)"
proof -
  let ?wd = "case working_directory of None \<Rightarrow> mkdtemp rt | Some d \<Rightarrow> d"
  let ?fs1 = "case working_directory of None \<Rightarrow> AList.update (mkdtemp rt) Dir fs | Some d \<Rightarrow> fs"
  have split: "(case working_directory of
               None \<Rightarrow> (mkdtemp rt, AList.update (mkdtemp rt) Dir fs)
             | Some d \<Rightarrow> (d, fs)) = (?wd, ?fs1)"
    by (cases working_directory) simp_all
  from assms obtain members where
    m: "map_of ?fs1 archive = Some (TarGz members)"
    and u: "unpacked = ?wd" and f: "fs' = extractall members ?wd ?fs1"
    unfolding unpack_model_def split
    by (auto simp: Let_def split: option.splits node.splits)
  have "map_of fs archive = Some (TarGz members)"
    using m by (cases working_directory) (auto simp: map_of_update split: if_splits)
  moreover have "\<forall>a n. (a, n) \<in> set members \<longrightarrow>
       (\<forall>(a', n') \<in> set members. a' = a \<longrightarrow> n' = n) \<longrightarrow>
        map_of fs' (unpacked @ a) = Some n"
  proof (intro allI impI)
    fix a n
    assume a: "(a, n) \<in> set members" and b: "\<forall>(a', n') \<in> set members. a' = a \<longrightarrow> n' = n"
    have 1: "\<forall>(a', n') \<in> set members. unpacked @ a' = unpacked @ a \<longrightarrow> n' = n"
      using b by auto
    have 2: "map_of ?fs1 (unpacked @ a) = Some n \<or>
             (\<exists>a'. (a', n) \<in> set members \<and> unpacked @ a' = unpacked @ a)"
      using a by blast
    from extractall_lookup[OF 1 2] show "map_of fs' (unpacked @ a) = Some n"
      unfolding f u .
  qed
  ultimately show ?thesis by blast
qed

text \<open>
  Claim C9.  In a file system that lists no path twice, let \<^verbatim>\<open>create_package_rasa\<close> be run
  with a fingerprint that is not empty and return the archive, and let \<^verbatim>\<open>unpack_model\<close> on
  that archive return a directory.  Then the fingerprint was persisted into the training
  directory before archiving, and the file \<^verbatim>\<open>fingerprint.json\<close> of the unpacked directory
  holds the same bytes as the persisted file: the JSON text of the fingerprint.
\<close>

theorem package_unpack_fingerprint_roundtrip:
  assumes "distinct (map fst fs)"
    and "fingerprint \<noteq> fmempty"
    and "create_package_rasa rt training_directory output_filename (Some fingerprint) fs =
           (Inr archive, fs1)"
    and "unpack_model rt archive working_directory fs1 = (Inr unpacked, fs2)"
  shows "\<exists>fs0. persist_fingerprint rt training_directory fingerprint fs = (Inr (), fs0) \<and>
           map_of fs0 (training_directory @ [FINGERPRINT_FILE_PATH]) =
             Some (File (dump_obj_as_json rt (PDict fingerprint))) \<and>
           map_of fs2 (unpacked @ [FINGERPRINT_FILE_PATH]) =
             Some (File (dump_obj_as_json rt (PDict fingerprint)))"
proof -
  let ?F = "training_directory @ [FINGERPRINT_FILE_PATH]"
  let ?c = "File (dump_obj_as_json rt (PDict fingerprint))"
  let ?out = output_filename
  obtain r0 fs0 where p0: "persist_fingerprint rt training_directory fingerprint fs = (r0, fs0)"
    by (cases "persist_fingerprint rt training_directory fingerprint fs") auto
  have r0: "r0 = Inr ()" using assms(3) p0 assms(2)
    by (cases r0) (auto simp: create_package_rasa_def)
  from p0 r0 have fs0: "fs0 = AList.update ?F ?c fs"
    unfolding persist_fingerprint_def Let_def by (auto dest: write_file_success(1))
  have d0: "distinct (map fst fs0)" unfolding fs0 using assms(1) by (rule distinct_update_fs)
  have l0: "map_of fs0 ?F = Some ?c" unfolding fs0 by (simp add: map_of_update)
  obtain r1 fs1' where mk: "(if \<not> path_exists fs0 (butlast ?out) then makedirs (butlast ?out) fs0
                    else (Inr (), fs0)) = (r1, fs1')"
    by (cases "(if \<not> path_exists fs0 (butlast ?out) then makedirs (butlast ?out) fs0
                    else (Inr (), fs0))") auto
  have d1: "distinct (map fst fs1')" using mk d0 by (auto split: if_splits dest: makedirs_distinct)
  have l1: "map_of fs1' ?F = Some ?c" using mk l0 by (auto split: if_splits dest: makedirs_keeps)
  let ?fs2 = "AList.update ?out (TarGz []) fs1'"
  let ?members = "concat (map (\<lambda>elem_name.
       tar_add ?fs2 ?out (training_directory @ [elem_name]) [elem_name])
     (listdir ?fs2 training_directory))"
  let ?fs3 = "AList.update ?out (TarGz ?members) ?fs2"
  from assms(3) p0 r0 mk assms(2) have res: "archive = ?out" "fs1 = rmtree training_directory ?fs3"
    by (auto simp: create_package_rasa_def Let_def split: sum.splits if_splits)
  from unpack_model_lookup[OF assms(4)] obtain members where
    m: "map_of fs1 archive = Some (TarGz members)"
    and ex: "\<forall>a n. (a, n) \<in> set members \<longrightarrow>
               (\<forall>(a', n') \<in> set members. a' = a \<longrightarrow> n' = n) \<longrightarrow>
               map_of fs2 (unpacked @ a) = Some n"
    by blast
  from m have nu: "\<not> under training_directory ?out" and m3: "map_of ?fs3 ?out = Some (TarGz members)"
    unfolding res map_of_rmtree by (auto split: if_splits)
  from m3 have members: "members = ?members" by (simp add: map_of_update)
  have ne: "?F \<noteq> ?out"
  proof
    assume "?F = ?out"
    then have "under training_directory ?out" by (auto simp: under_def)
    with nu show False ..
  qed
  have d2: "distinct (map fst ?fs2)" using d1 by (rule distinct_update_fs)
  have l2: "map_of ?fs2 ?F = Some ?c" using l1 ne by (simp add: map_of_update)
  from archive_members[OF d2 l2 ne] members
  have "([FINGERPRINT_FILE_PATH], ?c) \<in> set members"
    and "\<forall>(a', n') \<in> set members. a' = [FINGERPRINT_FILE_PATH] \<longrightarrow> n' = ?c"
    by simp_all
  with ex have "map_of fs2 (unpacked @ [FINGERPRINT_FILE_PATH]) = Some ?c" by blast
  with p0 r0 l0 show ?thesis by blast
qed

text \<open>
  The theorem at the example training directory, packaged into \<^verbatim>\<open>models/m.tar.gz\<close> and
  unpacked into a fresh temporary directory.
\<close>

theorem package_unpack_fingerprint_roundtrip_witness:
  "distinct (map fst fs_training) \<and> fp_en_de \<noteq> fmempty \<and>
   fst (create_package_rasa example_runtime [''train''] [''models'', ''m.tar.gz'']
          (Some fp_en_de) fs_training) = Inr [''models'', ''m.tar.gz''] \<and>
   fst (unpack_model example_runtime [''models'', ''m.tar.gz''] None
          (snd (create_package_rasa example_runtime [''train''] [''models'', ''m.tar.gz'']
                  (Some fp_en_de) fs_training))) = Inr [''tmp'', ''tmpab12''] \<and>
   map_of (snd (unpack_model example_runtime [''models'', ''m.tar.gz''] None
          (snd (create_package_rasa example_runtime [''train''] [''models'', ''m.tar.gz'']
                  (Some fp_en_de) fs_training))))
       [''tmp'', ''tmpab12'', ''fingerprint.json''] = Some (File fingerprint_text_en_de)"
proof -
  let ?out = "[''models'', ''m.tar.gz'']"
  let ?fs1 = "snd (create_package_rasa example_runtime [''train''] ?out (Some fp_en_de)
                fs_training)"
  let ?fs2 = "snd (unpack_model example_runtime ?out None ?fs1)"
  have 1: "distinct (map fst fs_training)" by code_simp
  have 2: "fp_en_de \<noteq> fmempty" by code_simp
  have c: "fst (create_package_rasa example_runtime [''train''] ?out (Some fp_en_de)
                fs_training) = Inr ?out"
    by code_simp
  then have 3: "create_package_rasa example_runtime [''train''] ?out (Some fp_en_de)
                fs_training = (Inr ?out, ?fs1)"
    by (simp add: prod_eq_iff)
  have u: "fst (unpack_model example_runtime ?out None ?fs1) = Inr [''tmp'', ''tmpab12'']"
    by code_simp
  then have 4: "unpack_model example_runtime ?out None ?fs1 = (Inr [''tmp'', ''tmpab12''], ?fs2)"
    by (simp add: prod_eq_iff)
  have d: "dump_obj_as_json example_runtime (PDict fp_en_de) = fingerprint_text_en_de"
    by code_simp
  from package_unpack_fingerprint_roundtrip[OF 1 2 3 4]
  have "map_of ?fs2 ([''tmp'', ''tmpab12''] @ [FINGERPRINT_FILE_PATH]) =
          Some (File fingerprint_text_en_de)"
    unfolding d by blast
  then have "map_of ?fs2 [''tmp'', ''tmpab12'', ''fingerprint.json''] =
          Some (File fingerprint_text_en_de)"
    by (simp add: FINGERPRINT_FILE_PATH_def)
  with 1 2 c u show ?thesis by blast
qed

text \<open>
  Claim C6.  Let \<^verbatim>\<open>persist\<close> succeed, let \<^verbatim>\<open>load\<close> be given metadata with the file name
  \<^verbatim>\<open>persist\<close> returned and the same model directory, and let the JSON reader give back the
  pattern list from the text the JSON writer produced for it.  Then \<^verbatim>\<open>load\<close> returns a
  featurizer whose \<^verbatim>\<open>known_patterns\<close> is the persisted list of \<^verbatim>\<open>{name, pattern}\<close> entries,
  element for element and in the same order.
\<close>

theorem persist_load_known_patterns:
  assumes "persist rt self file_name model_dir fs = (Inr meta_file, fs')"
    and "dict_get meta ''file'' = dict_get meta_file ''file''"
    and "json_loads rt (json_dumps_indent rt 4 (py_of_patterns (known_patterns self))) =
           Inr (py_of_patterns (known_patterns self))"
  shows "\<exists>loaded. load rt meta (Some model_dir) fs' = Inr loaded \<and>
           loaded_known_patterns loaded = py_of_patterns (known_patterns self)"
proof -
  let ?name = "file_name @ ''.pkl''"
  let ?file = "model_dir @ [?name]"
  let ?text = "json_dumps_indent rt 4 (py_of_patterns (known_patterns self))"
  from assms(1) have w: "write_file ?file ?text fs = (Inr (), fs')"
    and mf: "meta_file = fmupd ''file'' (PStr ?name) fmempty"
    by (auto simp: persist_def Let_def split: prod.splits sum.splits)
  from write_file_success(1)[OF w] have fs': "fs' = AList.update ?file (File ?text) fs" .
  have l: "map_of fs' ?file = Some (File ?text)" unfolding fs' by (simp add: map_of_update)
  then have e: "path_exists fs' ?file" by (simp add: path_exists_def)
  have g: "dict_get meta ''file'' = PStr ?name"
    using assms(2) mf by (simp add: dict_get_def)
  have t: "(if py_truthy (py_of_patterns (known_patterns self))
            then py_of_patterns (known_patterns self) else PList []) =
           py_of_patterns (known_patterns self)"
    by (simp add: py_of_patterns_def)
  have "load rt meta (Some model_dir) fs' =
          Inr \<lparr> component_config = meta,
                loaded_known_patterns = py_of_patterns (known_patterns self) \<rparr>"
    using g e l assms(3) t by (simp add: load_def Let_def)
  then show ?thesis by simp
qed

text \<open>The theorem at the featurizer with the patterns \<^verbatim>\<open>span\<close> and \<^verbatim>\<open>city\<close>.\<close>

theorem persist_load_known_patterns_witness:
  "fst (persist example_runtime featurizer_span ''component_1_RegexFeaturizer'' [''model'']
          [([''model''], Dir)]) =
     Inr (fmap_of_list [(''file'', PStr ''component_1_RegexFeaturizer.pkl'')]) \<and>
   (\<exists>loaded.
      load example_runtime (fmap_of_list [(''file'', PStr ''component_1_RegexFeaturizer.pkl'')])
        (Some [''model''])
        (snd (persist example_runtime featurizer_span ''component_1_RegexFeaturizer''
               [''model''] [([''model''], Dir)])) = Inr loaded \<and>
      loaded_known_patterns loaded =
        PList [PDict (fmap_of_list [(''name'', PStr ''span''), (''pattern'', PStr ''w Yo'')]),
               PDict (fmap_of_list [(''name'', PStr ''city''), (''pattern'', PStr ''Paris'')])])"
proof -
  let ?meta = "fmap_of_list [(''file'', PStr ''component_1_RegexFeaturizer.pkl'')]"
  let ?fs' = "snd (persist example_runtime featurizer_span ''component_1_RegexFeaturizer''
               [''model''] [([''model''], Dir)])"
  have p: "fst (persist example_runtime featurizer_span ''component_1_RegexFeaturizer''
             [''model''] [([''model''], Dir)]) = Inr ?meta"
    by code_simp
  then have 1: "persist example_runtime featurizer_span ''component_1_RegexFeaturizer''
             [''model''] [([''model''], Dir)] = (Inr ?meta, ?fs')"
    by (simp add: prod_eq_iff)
  have 2: "dict_get ?meta ''file'' = dict_get ?meta ''file''" by simp
  have 3: "json_loads example_runtime
             (json_dumps_indent example_runtime 4 (py_of_patterns (known_patterns featurizer_span))) =
           Inr (py_of_patterns (known_patterns featurizer_span))"
    by code_simp
  have v: "py_of_patterns (known_patterns featurizer_span) =
        PList [PDict (fmap_of_list [(''name'', PStr ''span''), (''pattern'', PStr ''w Yo'')]),
               PDict (fmap_of_list [(''name'', PStr ''city''), (''pattern'', PStr ''Paris'')])]"
    by code_simp
  from persist_load_known_patterns[OF 1 2 3] p show ?thesis unfolding v by blast
qed

section \<open>Properties of the lookup-table regex\<close>

lemma special_not_alnum:
  "c \<in> set special_chars \<Longrightarrow> c \<noteq> CHR ''b'' \<and> \<not> isalnum c"
  by (auto simp: special_chars_def isalnum_def)

lemma plain_not_meta:
  "c \<notin> set special_chars \<Longrightarrow>
   c \<noteq> CHR '')'' \<and> c \<noteq> CHR ''|'' \<and> c \<noteq> CHR 0x5C \<and> c \<notin> set meta_chars"
  by (auto simp: special_chars_def meta_chars_def)

lemma parse_escape:
  "parse_alternatives (re_escape e @ rest) cur = parse_alternatives rest (cur @ map Literal e)"
proof (induction e arbitrary: cur)
  case Nil
  then show ?case by simp
next
  case (Cons c cs)
  show ?case
  proof (cases "c \<in> set special_chars")
    case True
    with special_not_alnum[OF True] Cons.IH[of "cur @ [Literal c]"] show ?thesis by simp
  next
    case False
    with plain_not_meta[OF False] Cons.IH[of "cur @ [Literal c]"] show ?thesis by simp
  qed
qed

lemma parse_element:
  "parse_alternatives ([CHR 0x5C, CHR ''b''] @ re_escape e @ [CHR 0x5C, CHR ''b''] @ rest) [] =
   parse_alternatives rest (element_alternative e)"
proof -
  have "parse_alternatives ([CHR 0x5C, CHR ''b''] @ re_escape e @ [CHR 0x5C, CHR ''b''] @ rest) [] =
        parse_alternatives (re_escape e @ [CHR 0x5C, CHR ''b''] @ rest) [WordBoundary]"
    by simp
  also have "\<dots> = parse_alternatives ([CHR 0x5C, CHR ''b''] @ rest) ([WordBoundary] @ map Literal e)"
    by (rule parse_escape)
  also have "\<dots> = parse_alternatives rest (element_alternative e)"
    by (simp add: element_alternative_def)
  finally show ?thesis .
qed

lemma parse_joined:
  "parse_alternatives
     ([CHR 0x5C, CHR ''b''] @
      py_join [CHR 0x5C, CHR ''b'', CHR ''|'', CHR 0x5C, CHR ''b''] (map re_escape (e # es)) @
      [CHR 0x5C, CHR ''b'', CHR '')'']) [] =
   Some (map element_alternative (e # es))"
proof (induction es arbitrary: e)
  case Nil
  have "parse_alternatives ([CHR 0x5C, CHR ''b''] @ re_escape e @ [CHR 0x5C, CHR ''b''] @ [CHR '')'']) [] =
        parse_alternatives [CHR '')''] (element_alternative e)"
    by (rule parse_element)
  then show ?case by simp
next
  case (Cons y ys)
  let ?sep = "[CHR 0x5C, CHR ''b'', CHR ''|'', CHR 0x5C, CHR ''b'']"
  let ?tail = "[CHR 0x5C, CHR ''b''] @ py_join ?sep (map re_escape (y # ys)) @
               [CHR 0x5C, CHR ''b'', CHR '')'']"
  have "[CHR 0x5C, CHR ''b''] @ py_join ?sep (map re_escape (e # y # ys)) @
          [CHR 0x5C, CHR ''b'', CHR '')''] =
        [CHR 0x5C, CHR ''b''] @ re_escape e @ [CHR 0x5C, CHR ''b''] @ (CHR ''|'' # ?tail)"
    by simp
  then have "parse_alternatives ([CHR 0x5C, CHR ''b''] @ py_join ?sep (map re_escape (e # y # ys)) @
          [CHR 0x5C, CHR ''b'', CHR '')'']) [] =
        parse_alternatives (CHR ''|'' # ?tail) (element_alternative e)"
    by (simp only: parse_element)
  also have "\<dots> = map_option (Cons (element_alternative e)) (parse_alternatives ?tail [])"
    by simp
  also have "\<dots> = Some (map element_alternative (e # y # ys))"
    using Cons.IH[of y] by simp
  finally show ?case .
qed

lemma match_literals:
  "match_atoms (map Literal e @ rest) s i =
     (if map lower (take (length e) (drop i s)) = map lower e
      then match_atoms rest s (i + length e) else None)"
proof (induction e arbitrary: i)
  case Nil
  then show ?case by simp
next
  case (Cons c cs)
  show ?case
  proof (cases "i < length s")
    case False
    then show ?thesis by simp
  next
    case True
    then have d: "drop i s = s ! i # drop (Suc i) s" by (simp add: Cons_nth_drop_Suc)
    show ?thesis using True Cons.IH[of "Suc i"] by (auto simp: d)
  qed
qed

lemma match_element:
  "match_atoms (element_alternative e) s i = Some j \<longleftrightarrow> occurrence e s i j"
  unfolding element_alternative_def occurrence_def
  using match_literals[of e "[WordBoundary]" s i]
  by (auto simp: word_boundary_def split: if_splits)

text \<open>
  What holds of a table with at least one element: the generated pattern is parsed, and it
  can match a part of a text exactly when that part is a case-insensitive occurrence of some
  element with a word boundary on either side.
\<close>

lemma lookup_regex_matches_occurrences:
  assumes "es \<noteq> []"
  shows "\<exists>regex alternatives.
           generate_lookup_regex fs \<lparr> table_name = n, elements = ElementList es \<rparr> = Inr regex \<and>
           parse_regex regex = Some alternatives \<and>
           (\<forall>s i j. regex_matches alternatives s i j \<longleftrightarrow> (\<exists>e \<in> set es. occurrence e s i j))"
proof -
  from assms obtain e es' where es: "es = e # es'" by (cases es) auto
  let ?sep = "[CHR 0x5C, CHR ''b'', CHR ''|'', CHR 0x5C, CHR ''b'']"
  let ?regex = "''(?i)('' @ [CHR 0x5C, CHR ''b''] @ py_join ?sep (map re_escape es) @
                 [CHR 0x5C, CHR ''b'', CHR '')'']"
  have g: "generate_lookup_regex fs \<lparr> table_name = n, elements = ElementList es \<rparr> = Inr ?regex"
    by (simp add: generate_lookup_regex_def)
  have p: "parse_regex ?regex = Some (map element_alternative es)"
    unfolding parse_regex_def es using parse_joined[of e es'] by simp
  have m: "regex_matches (map element_alternative es) s i j \<longleftrightarrow>
             (\<exists>e \<in> set es. occurrence e s i j)" for s i j
    by (auto simp: regex_matches_def match_element)
  from g p m show ?thesis by blast
qed

text \<open>
  Claim C7 at a failing input.  For a table with no elements the generated pattern is
  \<^verbatim>\<open>(?i)(\b\b)\<close>, which matches the empty string at every word boundary of a text, here
  at the positions 0 and 2 of \<^verbatim>\<open>"hi there"\<close>, although the table has no element that could
  occur there.
\<close>

theorem empty_lookup_table_matches_word_boundaries:
  "generate_lookup_regex [] table_empty =
     Inr (''(?i)('' @ [CHR 0x5C, CHR ''b'', CHR 0x5C, CHR ''b''] @ '')'') \<and>
   parse_regex (''(?i)('' @ [CHR 0x5C, CHR ''b'', CHR 0x5C, CHR ''b''] @ '')'') =
     Some [[WordBoundary, WordBoundary]] \<and>
   regex_matches [[WordBoundary, WordBoundary]] ''hi there'' 0 0 \<and>
   regex_matches [[WordBoundary, WordBoundary]] ''hi there'' 2 2"
  by code_simp

text \<open>
  The example of the claim: the pattern for the table \<^verbatim>\<open>["NYC"]\<close> matches \<^verbatim>\<open>nyc\<close> in
  \<^verbatim>\<open>"I live in nyc"\<close> and does not match the first three characters of \<^verbatim>\<open>"NYCA"\<close>.
\<close>

lemma nyc_example:
  "generate_lookup_regex [] table_nyc =
     Inr (''(?i)('' @ [CHR 0x5C, CHR ''b''] @ ''NYC'' @ [CHR 0x5C, CHR ''b''] @ '')'') \<and>
   parse_regex (''(?i)('' @ [CHR 0x5C, CHR ''b''] @ ''NYC'' @ [CHR 0x5C, CHR ''b''] @ '')'') =
     Some [element_alternative ''NYC''] \<and>
   regex_matches [element_alternative ''NYC''] ''I live in nyc'' 10 13 \<and>
   \<not> regex_matches [element_alternative ''NYC''] ''NYCA'' 0 3"
  by code_simp

end
